theory Spec2Isabelle
  imports Complex_Main
begin

section \<open>Exceptions and Python truthiness\<close>

text \<open>
  A raised Python exception is a value: its class and its message. The classes are the
  ones the pipeline raises or catches by name. \<open>BaseOnly\<close> stands for the signals that
  derive from \<open>BaseException\<close> but not from \<open>Exception\<close> (KeyboardInterrupt,
  asyncio.CancelledError): an \<open>except Exception\<close> clause lets them through.
  Messages built with f-strings are abbreviated; no property below reads them.
\<close>

datatype exn_class =
  ValueError | IndexError | TypeError | AttributeError | KeyError | ZeroDivisionError
  | ClientError | RequestException | OtherException | BaseOnly

datatype exn = Exn (cls: exn_class) (msg: string)

definition is_Exception :: "exn \<Rightarrow> bool" where
  "is_Exception e = (cls e \<noteq> BaseOnly)"

text \<open>\<open>except aiohttp.ClientError\<close>: the instances of that class.\<close>

definition is_ClientError :: "exn \<Rightarrow> bool" where
  "is_ClientError e = (cls e = ClientError)"

text \<open>\<open>if x:\<close> on an \<open>Optional[str]\<close>: \<open>None\<close> and the empty string are falsy.\<close>

definition truthy_str :: "string option \<Rightarrow> bool" where
  "truthy_str x = (case x of None \<Rightarrow> False | Some s \<Rightarrow> s \<noteq> [])"

section \<open>JSON values\<close>

text \<open>
  What a JSON parser returns: the LLM chain's structured output is one of these. A
  dictionary is an association list; \<open>dict_get\<close> is \<open>d.get(key, default)\<close>.
\<close>

datatype json =
  JNull | JBool bool | JNum int | JStr string | JList "json list"
  | JDict "(string \<times> json) list"

definition dict_get :: "(string \<times> json) list \<Rightarrow> string \<Rightarrow> json \<Rightarrow> json" where
  "dict_get d k dflt = (case map_of d k of Some v \<Rightarrow> v | None \<Rightarrow> dflt)"

section \<open>The state model (agents/state.py)\<close>

datatype PipelineStatus =
  INITIALIZING | AWAITING_HITL | FETCHING_DATA | RESEARCH_IN_PROGRESS
  | SYNTHESIZING | COMPLETED | FAILED

text \<open>
  \<open>CompanyMatch\<close>: the field \<open>cik10\<close> is named \<open>match_cik10\<close> here, since the
  state has a field \<open>cik10\<close> of its own.
\<close>

record CompanyMatch =
  title :: string
  ticker :: string
  cik_str :: string
  match_cik10 :: "string option"

text \<open>
  A \<open>Dict[str, Any]\<close> payload is an association list (truthy when non-empty); the
  payloads of the external collaborators are opaque strings.
\<close>

type_synonym payload = "(string \<times> string) list"

record CompanyProfile =
  description :: string
  profile_url :: "string option"
  investor_docs :: "payload list"
  industry :: "string option"

record SearchResult =
  sr_title :: string
  url :: string
  snippet :: "string option"

record ResearchState =
  company_name :: string
  status :: PipelineStatus
  current_node :: string
  error_message :: "string option"
  match_options :: "CompanyMatch list"
  human_response :: "string option"
  found :: "CompanyMatch option"
  cik10 :: "string option"
  llm_validation_passed :: bool
  validation_result :: "(string \<times> json) list option"
  companyfacts :: payload
  submissions :: payload
  company_profile :: "CompanyProfile option"
  news_timeline :: "SearchResult list"
  social_sentiment :: "payload option"
  competitors :: "payload list"

text \<open>\<open>ResearchState(company_name=...)\<close>: every other field at its declared default.\<close>

definition new_state :: "string \<Rightarrow> ResearchState" where
  "new_state name =
     \<lparr> company_name = name, status = INITIALIZING, current_node = ''start'',
       error_message = None, match_options = [], human_response = None,
       found = None, cik10 = None, llm_validation_passed = False,
       validation_result = None, companyfacts = [], submissions = [],
       company_profile = None, news_timeline = [], social_sentiment = None,
       competitors = [] \<rparr>"

section \<open>Routers (agents/graph\_builder.py)\<close>

text \<open>
  A router reads the state and returns the label of the next edge. \<open>if state.found\<close>
  tests an \<open>Optional[CompanyMatch]\<close>: a model instance is always truthy, so the test
  is \<open>found \<noteq> None\<close>; \<open>if not state.match_options\<close> tests for the empty list.
\<close>

definition check_if_needs_matching :: "ResearchState \<Rightarrow> string" where
  "check_if_needs_matching state =
     (if found state \<noteq> None then ''skip_match'' else ''needs_match'')"

definition should_validate :: "ResearchState \<Rightarrow> string" where
  "should_validate state =
     (if found state \<noteq> None then ''data_collection''
      else if match_options state = [] then ''suggest''
      else ''validate'')"



definition is_resolved :: "ResearchState \<Rightarrow> string" where
  "is_resolved state =
     (if found state \<noteq> None then ''data_collection'' else ''end'')"

section \<open>Identity resolution stages\<close>

text \<open>
  A stage mutates the state object it is given and either returns it or raises. The
  model returns both: the outcome (\<open>Inl\<close> the exception raised, \<open>Inr ()\<close> when the
  stage returned the state) and the state object as the call left it, so that a write
  made before a \<open>raise\<close> stays visible.

  Python built-ins are parameters of the model: \<open>py_int s\<close> is
  \<open>int(s.strip())\<close> (\<open>None\<close> when it raises ValueError) and \<open>upper\<close> is
  \<open>str.upper\<close>.
\<close>

type_synonym stage_result = "(exn + unit) \<times> ResearchState"

subsection \<open>resolve\_company\_selection (nodes/sec\_data.py)\<close>

definition resolve_company_selection ::
  "(string \<Rightarrow> int option) \<Rightarrow> ResearchState \<Rightarrow> stage_result" where
  "resolve_company_selection py_int state0 =
     (let state = state0\<lparr>current_node := ''resolve''\<rparr> in
      case human_response state of
        None \<Rightarrow> (Inl (Exn ValueError ''human_response is required''), state)
      | Some response \<Rightarrow>
          if response = [] then (Inl (Exn ValueError ''human_response is required''), state)
          else if match_options state = [] then
            (Inl (Exn ValueError ''No match options available''), state)
          else
            (case py_int response of
               None \<Rightarrow> (Inl (Exn ValueError ''Invalid selection''), state)
             | Some n \<Rightarrow>
                 (let selection_index = n - 1 in
                  if selection_index < 0 \<or> selection_index \<ge> int (length (match_options state))
                  then (Inl (Exn IndexError ''Selection is out of range''), state)
                  else
                    (let selected = match_options state ! nat selection_index in
                     (Inr (), state\<lparr>found := Some selected,
                                      cik10 := match_cik10 selected\<rparr>)))))"

section \<open>Retry with exponential backoff (utils/retry.py)\<close>

text \<open>
  The wrapped callable is a function of the world it acts on: it returns its outcome
  and the world after the call. The wrapper threads the world and the list of the
  durations it slept, in order. \<open>async_wrapper\<close> and \<open>sync_wrapper\<close> run the same
  loop; they differ in the sleep they call, which is a parameter. The optional
  \<open>on_retry\<close> callback is left at its default \<open>None\<close>.

  Two Python operations of the \<open>except\<close> block are parameters, as each of them can
  raise, and an exception raised there leaves the wrapper at once:
  \<^item> \<open>py_pow b n\<close> is \<open>backoff_factor ** attempt\<close> on a float and an int: the float
    it computes (rounded, so not the exact power in general), or OverflowError;
  \<^item> \<open>sleep d\<close> is \<open>time.sleep(d)\<close> in \<open>sync_wrapper\<close>, which raises ValueError
    for a negative duration and OverflowError for one too large, and
    \<open>await asyncio.sleep(d)\<close> in \<open>async_wrapper\<close>; \<open>None\<close> says that it returned.

  \<open>retry_loop\<close> is the \<open>for attempt in range(max_attempts)\<close> loop from index
  \<open>attempt\<close> on; \<open>exceptions e\<close> says that \<open>e\<close> is an instance of one of the classes
  in the \<open>exceptions\<close> tuple. After the loop, \<open>raise last_exception\<close> re-raises the
  last exception, and with none recorded (\<open>raise None\<close>) Python raises TypeError.
\<close>

function retry_loop ::
  "int \<Rightarrow> real \<Rightarrow> (exn \<Rightarrow> bool) \<Rightarrow> (real \<Rightarrow> nat \<Rightarrow> exn + real) \<Rightarrow> (real \<Rightarrow> exn option) \<Rightarrow>
   ('w \<Rightarrow> (exn + 'a) \<times> 'w) \<Rightarrow>
   nat \<Rightarrow> exn option \<Rightarrow> 'w \<Rightarrow> real list \<Rightarrow> (exn + 'a) \<times> 'w \<times> real list" where
  "retry_loop max_attempts backoff_factor exceptions py_pow sleep func
              attempt last_exception w sleeps =
     (if int attempt < max_attempts then
        (case func w of
           (Inr v, w') \<Rightarrow> (Inr v, w', sleeps)
         | (Inl e, w') \<Rightarrow>
             if exceptions e then
               (if int attempt = max_attempts - 1 then (Inl e, w', sleeps)
                else
                  (case py_pow backoff_factor attempt of
                     Inl raised \<Rightarrow> (Inl raised, w', sleeps)
                   | Inr wait_time \<Rightarrow>
                       (case sleep wait_time of
                          Some raised \<Rightarrow> (Inl raised, w', sleeps)
                        | None \<Rightarrow>
                            retry_loop max_attempts backoff_factor exceptions py_pow sleep func
                              (attempt + 1) (Some e) w' (sleeps @ [wait_time]))))
             else (Inl e, w', sleeps))
      else
        (case last_exception of
           Some e \<Rightarrow> (Inl e, w, sleeps)
         | None \<Rightarrow> (Inl (Exn TypeError ''exceptions must derive from BaseException''), w, sleeps)))"
  by pat_completeness auto
termination
  by (relation "measure (\<lambda>(m, b, ex, pw, sl, f, a, le, w, ss). nat (m - int a))") auto

declare retry_loop.simps [simp del]

definition retry ::
  "int \<Rightarrow> real \<Rightarrow> (exn \<Rightarrow> bool) \<Rightarrow> (real \<Rightarrow> nat \<Rightarrow> exn + real) \<Rightarrow> (real \<Rightarrow> exn option) \<Rightarrow>
   ('w \<Rightarrow> (exn + 'a) \<times> 'w) \<Rightarrow> 'w \<Rightarrow> (exn + 'a) \<times> 'w \<times> real list" where
  "retry max_attempts backoff_factor exceptions py_pow sleep func w =
     retry_loop max_attempts backoff_factor exceptions py_pow sleep func 0 None w []"

text \<open>
  The world after \<open>n\<close> consecutive calls of \<open>func\<close>, and the outcome of the call
  made then: they say what "the call fails \<open>k\<close> times and then succeeds" means for a
  callable with effects.
\<close>

fun world_after :: "('w \<Rightarrow> (exn + 'a) \<times> 'w) \<Rightarrow> 'w \<Rightarrow> nat \<Rightarrow> 'w" where
  "world_after func w 0 = w"
| "world_after func w (Suc n) = snd (func (world_after func w n))"

definition outcome_at :: "('w \<Rightarrow> (exn + 'a) \<times> 'w) \<Rightarrow> 'w \<Rightarrow> nat \<Rightarrow> exn + 'a" where
  "outcome_at func w n = fst (func (world_after func w n))"

definition retryable_failure :: "(exn \<Rightarrow> bool) \<Rightarrow> exn + 'a \<Rightarrow> bool" where
  "retryable_failure exceptions r = (case r of Inl e \<Rightarrow> exceptions e | Inr v \<Rightarrow> False)"

text \<open>
  The waits before the attempts \<open>1, ..., k\<close>: \<open>waits_done py_pow sleep b k ds\<close> says
  that for each \<open>i < k\<close> Python computes \<open>b ** i\<close> as the duration \<open>ds ! i\<close> and the
  sleep of that duration returns.
\<close>

definition waits_done ::
  "(real \<Rightarrow> nat \<Rightarrow> exn + real) \<Rightarrow> (real \<Rightarrow> exn option) \<Rightarrow> real \<Rightarrow> nat \<Rightarrow> real list \<Rightarrow> bool" where
  "waits_done py_pow sleep backoff_factor k ds =
     (length ds = k
      \<and> list_all (\<lambda>i. py_pow backoff_factor i = Inr (ds ! i) \<and> sleep (ds ! i) = None) [0..<k])"

section \<open>LLM validation (nodes/company\_validation.py)\<close>

text \<open>
  \<open>llm\<close> is the outcome of \<open>await chain.ainvoke(...)\<close>: the exception it raised, or
  the parsed JSON it returned. \<open>x.upper()\<close> raises AttributeError unless \<open>x\<close> is a
  string, and \<open>result.get\<close> raises it unless \<open>result\<close> is a dictionary.
  \<open>validation_attempt\<close> is the part of the \<open>try\<close> block that can raise, up to the
  values \<open>confidence\<close>, \<open>match_result\<close> and \<open>reasoning\<close>; the rest of the block
  only assigns.
\<close>

definition str_upper :: "(string \<Rightarrow> string) \<Rightarrow> json \<Rightarrow> exn + string" where
  "str_upper upper x =
     (case x of JStr s \<Rightarrow> Inr (upper s)
      | _ \<Rightarrow> Inl (Exn AttributeError ''object has no attribute upper''))"

definition validation_attempt ::
  "(string \<Rightarrow> string) \<Rightarrow> exn + json \<Rightarrow> exn + (string \<times> string \<times> json)" where
  "validation_attempt upper llm =
     (case llm of
        Inl e \<Rightarrow> Inl e
      | Inr (JDict result) \<Rightarrow>
          (case str_upper upper (dict_get result ''confidence'' (JStr ''LOW'')) of
             Inl e \<Rightarrow> Inl e
           | Inr confidence \<Rightarrow>
               (case str_upper upper (dict_get result ''match'' (JStr ''NO'')) of
                  Inl e \<Rightarrow> Inl e
                | Inr match_result \<Rightarrow>
                    Inr (confidence, match_result,
                         dict_get result ''reasoning'' (JStr []))))
      | Inr _ \<Rightarrow> Inl (Exn AttributeError ''object has no attribute get''))"

text \<open>\<open>top_match.dict()\<close>\<close>

definition match_dict :: "CompanyMatch \<Rightarrow> json" where
  "match_dict m =
     JDict [(''title'', JStr (title m)), (''ticker'', JStr (ticker m)),
            (''cik_str'', JStr (cik_str m)),
            (''cik10'', case match_cik10 m of None \<Rightarrow> JNull | Some c \<Rightarrow> JStr c)]"

text \<open>
  The body of \<open>validate_company_match\<close>. Between the check of \<open>match_options\<close> and
  the \<open>try\<close> block it builds what the call needs: the output parser, the prompt with
  the parser's format instructions, the \<open>ChatGoogleGenerativeAI\<close> client, the prompt
  template and the chain. That part writes nothing to the state and can raise; no
  \<open>try\<close> encloses it, so an exception raised there leaves the body.

  The decorator can call the body more than once, and the outside world may answer
  differently each time: \<open>build n\<close> is the outcome of building the chain at call
  \<open>n\<close> of the body (\<open>None\<close>: it was built) and \<open>llm n\<close> the outcome of
  \<open>await chain.ainvoke(...)\<close> at that call. The body acts on the state object and on
  the number of calls made so far.
\<close>

definition validate_body ::
  "(string \<Rightarrow> string) \<Rightarrow> (nat \<Rightarrow> exn option) \<Rightarrow> (nat \<Rightarrow> exn + json) \<Rightarrow> ResearchState \<times> nat
   \<Rightarrow> (exn + unit) \<times> (ResearchState \<times> nat)" where
  "validate_body upper build llm world0 =
     (let state0 = fst world0; calls = snd world0;
          state = state0\<lparr>current_node := ''validate_match''\<rparr> in
      case match_options state of
        [] \<Rightarrow> (Inr (), state\<lparr>error_message := Some ''No company matches found''\<rparr>, Suc calls)
      | top_match # others \<Rightarrow>
          (case build calls of
             Some e \<Rightarrow> (Inl e, state, Suc calls)
           | None \<Rightarrow>
               (case validation_attempt upper (llm calls) of
                  Inr (confidence, match_result, reasoning) \<Rightarrow>
                    (let state1 = state\<lparr>validation_result :=
                           Some [(''confidence'', JStr confidence), (''match'', JStr match_result),
                                 (''reasoning'', reasoning),
                                 (''validated_company'', match_dict top_match)]\<rparr>
                     in if confidence = ''HIGH'' \<and> match_result = ''YES''
                        then (Inr (), state1\<lparr>found := Some top_match,
                                              cik10 := match_cik10 top_match,
                                              llm_validation_passed := True\<rparr>, Suc calls)
                        else (Inr (), state1\<lparr>llm_validation_passed := False\<rparr>, Suc calls))
                | Inl e \<Rightarrow>
                    if is_Exception e
                    then (Inr (), state\<lparr>llm_validation_passed := False,
                                         error_message := Some (''Validation error: '' @ msg e)\<rparr>,
                          Suc calls)
                    else (Inl e, state, Suc calls))))"

text \<open>
  \<open>await asyncio.sleep(d)\<close> returns for every duration that is a number (at once
  when it is not positive).
\<close>

definition asyncio_sleep :: "real \<Rightarrow> exn option" where
  "asyncio_sleep d = None"

text \<open>
  The stage is the body under \<open>@retry(max_attempts=2)\<close>, with the decorator's
  defaults \<open>backoff_factor=2.0\<close> and \<open>exceptions=(Exception,)\<close>; the body is a
  coroutine function, so the decorator's \<open>async_wrapper\<close> runs it.
\<close>

definition validate_company_match ::
  "(string \<Rightarrow> string) \<Rightarrow> (real \<Rightarrow> nat \<Rightarrow> exn + real) \<Rightarrow> (nat \<Rightarrow> exn option) \<Rightarrow> (nat \<Rightarrow> exn + json)
   \<Rightarrow> ResearchState \<Rightarrow> (exn + unit) \<times> ResearchState \<times> real list" where
  "validate_company_match upper py_pow build llm state =
     (case retry 2 2 is_Exception py_pow asyncio_sleep (validate_body upper build llm) (state, 0) of
        (outcome, world', sleeps) \<Rightarrow> (outcome, fst world', sleeps))"



section \<open>Ordered fallback (utils/fallback.py)\<close>

text \<open>
  A strategy is a name and a callable; the callable takes the arguments of
  \<open>execute\<close> and acts on the world. \<open>truthy\<close> is Python's truth test on a result
  (\<open>if result:\<close>): \<open>None\<close> and empty collections are falsy.
\<close>

type_synonym ('arg, 'w, 'a) strategy = "string \<times> ('arg \<Rightarrow> 'w \<Rightarrow> (exn + 'a) \<times> 'w)"

record ('arg, 'w, 'a) FallbackChain =
  chain_name :: string
  strategies :: "('arg, 'w, 'a) strategy list"

definition FallbackChain_init :: "string \<Rightarrow> ('arg, 'w, 'a) FallbackChain" where
  "FallbackChain_init n = \<lparr>chain_name = n, strategies = []\<rparr>"

definition add_strategy ::
  "string \<Rightarrow> ('arg \<Rightarrow> 'w \<Rightarrow> (exn + 'a) \<times> 'w) \<Rightarrow> ('arg, 'w, 'a) FallbackChain
   \<Rightarrow> ('arg, 'w, 'a) FallbackChain" where
  "add_strategy strategy_name func chain =
     chain\<lparr>strategies := strategies chain @ [(strategy_name, func)]\<rparr>"

text \<open>
  The \<open>for strategy_name, func in self.strategies\<close> loop of \<open>execute\<close>, with the
  variable \<open>last_error\<close>. After the loop, \<open>if last_error: raise last_error\<close> is a
  truth test on the recorded exception object, not a test for \<open>None\<close>:
  \<open>truthy_exn e\<close> is Python's truth value of the object \<open>e\<close> (false only for an
  instance of a class that defines \<open>__bool__\<close> or \<open>__len__\<close> to say so), and a
  recorded exception that is falsy is dropped like none at all, with
  \<open>return None\<close>. The \<open>except Exception\<close> clause does not catch a \<open>BaseOnly\<close>
  signal, which leaves the loop at once.
\<close>

fun execute_loop ::
  "('a \<Rightarrow> bool) \<Rightarrow> (exn \<Rightarrow> bool) \<Rightarrow> ('arg, 'w, 'a) strategy list \<Rightarrow> 'arg \<Rightarrow> exn option \<Rightarrow> 'w
   \<Rightarrow> (exn + 'a option) \<times> 'w" where
  "execute_loop truthy truthy_exn [] args last_error w =
     (case last_error of
        Some e \<Rightarrow> if truthy_exn e then (Inl e, w) else (Inr None, w)
      | None \<Rightarrow> (Inr None, w))"
| "execute_loop truthy truthy_exn ((strategy_name, func) # rest) args last_error w =
     (case func args w of
        (Inr result, w') \<Rightarrow>
          if truthy result then (Inr (Some result), w')
          else execute_loop truthy truthy_exn rest args last_error w'
      | (Inl e, w') \<Rightarrow>
          if is_Exception e then execute_loop truthy truthy_exn rest args (Some e) w'
          else (Inl e, w'))"

definition execute ::
  "('a \<Rightarrow> bool) \<Rightarrow> (exn \<Rightarrow> bool) \<Rightarrow> ('arg, 'w, 'a) FallbackChain \<Rightarrow> 'arg \<Rightarrow> 'w
   \<Rightarrow> (exn + 'a option) \<times> 'w" where
  "execute truthy truthy_exn chain args w =
     (if strategies chain = [] then (Inl (Exn ValueError ''No strategies configured''), w)
      else execute_loop truthy truthy_exn (strategies chain) args None w)"

text \<open>
  What happens when the strategies of a list are invoked one after another: the world
  they leave, and whether each of them, at its turn, returned an empty result
  (\<open>all_empty\<close>), raised an \<open>Exception\<close> (\<open>all_raise\<close>), or did one of the two
  (\<open>all_fall_through\<close>).
\<close>

fun invoke_all :: "('arg, 'w, 'a) strategy list \<Rightarrow> 'arg \<Rightarrow> 'w \<Rightarrow> 'w" where
  "invoke_all [] args w = w"
| "invoke_all ((strategy_name, func) # rest) args w = invoke_all rest args (snd (func args w))"

fun all_empty :: "('a \<Rightarrow> bool) \<Rightarrow> ('arg, 'w, 'a) strategy list \<Rightarrow> 'arg \<Rightarrow> 'w \<Rightarrow> bool" where
  "all_empty truthy [] args w = True"
| "all_empty truthy ((strategy_name, func) # rest) args w =
     (case func args w of
        (Inr result, w') \<Rightarrow> \<not> truthy result \<and> all_empty truthy rest args w'
      | (Inl e, w') \<Rightarrow> False)"

fun all_raise :: "('arg, 'w, 'a) strategy list \<Rightarrow> 'arg \<Rightarrow> 'w \<Rightarrow> bool" where
  "all_raise [] args w = True"
| "all_raise ((strategy_name, func) # rest) args w =
     (case func args w of
        (Inr result, w') \<Rightarrow> False
      | (Inl e, w') \<Rightarrow> is_Exception e \<and> all_raise rest args w')"

fun all_fall_through ::
  "('a \<Rightarrow> bool) \<Rightarrow> ('arg, 'w, 'a) strategy list \<Rightarrow> 'arg \<Rightarrow> 'w \<Rightarrow> bool" where
  "all_fall_through truthy [] args w = True"
| "all_fall_through truthy ((strategy_name, func) # rest) args w =
     (case func args w of
        (Inr result, w') \<Rightarrow> \<not> truthy result \<and> all_fall_through truthy rest args w'
      | (Inl e, w') \<Rightarrow> is_Exception e \<and> all_fall_through truthy rest args w')"

text \<open>The value of \<open>last_error\<close> after the strategies of a list have fallen through.\<close>

fun last_error_after ::
  "('arg, 'w, 'a) strategy list \<Rightarrow> 'arg \<Rightarrow> exn option \<Rightarrow> 'w \<Rightarrow> exn option" where
  "last_error_after [] args last_error w = last_error"
| "last_error_after ((strategy_name, func) # rest) args last_error w =
     (case func args w of
        (Inr result, w') \<Rightarrow> last_error_after rest args last_error w'
      | (Inl e, w') \<Rightarrow> last_error_after rest args (Some e) w')"

subsection \<open>ServiceFallback\<close>

text \<open>
  A registered service is the dictionary \<open>{"name", "func", "priority"}\<close>; the two
  counters are dictionaries keyed by service name. Reading a missing key raises
  KeyError: outside the \<open>try\<close> block it leaves \<open>call\<close>, inside it the
  \<open>except Exception\<close> clause catches it like any failure of the service.
\<close>

record ('arg, 'w, 'a) service =
  svc_name :: string
  svc_func :: "'arg \<Rightarrow> 'w \<Rightarrow> (exn + 'a) \<times> 'w"
  priority :: int

record ('arg, 'w, 'a) ServiceFallback =
  fallback_name :: string
  services :: "('arg, 'w, 'a) service list"
  failure_counts :: "string \<rightharpoonup> int"
  success_counts :: "string \<rightharpoonup> int"

definition ServiceFallback_init :: "string \<Rightarrow> ('arg, 'w, 'a) ServiceFallback" where
  "ServiceFallback_init n =
     \<lparr>fallback_name = n, services = [], failure_counts = Map.empty,
      success_counts = Map.empty\<rparr>"

text \<open>\<open>list.sort(key=...)\<close> is stable, as \<open>sort_key\<close> is.\<close>

definition register ::
  "string \<Rightarrow> ('arg \<Rightarrow> 'w \<Rightarrow> (exn + 'a) \<times> 'w) \<Rightarrow> int \<Rightarrow> ('arg, 'w, 'a) ServiceFallback
   \<Rightarrow> ('arg, 'w, 'a) ServiceFallback" where
  "register service_name func prio sf =
     sf\<lparr>services := sort_key priority
           (services sf @ [\<lparr>svc_name = service_name, svc_func = func, priority = prio\<rparr>]),
        failure_counts := (failure_counts sf)(service_name \<mapsto> 0),
        success_counts := (success_counts sf)(service_name \<mapsto> 0)\<rparr>"

fun call_loop ::
  "('a \<Rightarrow> bool) \<Rightarrow> ('arg, 'w, 'a) service list \<Rightarrow> 'arg \<Rightarrow> (string \<rightharpoonup> int)
   \<Rightarrow> (string \<rightharpoonup> int) \<Rightarrow> 'w
   \<Rightarrow> (exn + 'a option) \<times> (string \<rightharpoonup> int) \<times> (string \<rightharpoonup> int) \<times> 'w" where
  "call_loop truthy [] args fc sc w = (Inr None, fc, sc, w)"
| "call_loop truthy (service # rest) args fc sc w =
     (case fc (svc_name service) of
        None \<Rightarrow> (Inl (Exn KeyError (svc_name service)), fc, sc, w)
      | Some failures \<Rightarrow>
          if failures > 3 then call_loop truthy rest args fc sc w
          else
            (case svc_func service args w of
               (Inr result, w') \<Rightarrow>
                 if truthy result then
                   (case sc (svc_name service) of
                      Some successes \<Rightarrow>
                        (Inr (Some result),
                         fc(svc_name service \<mapsto> max 0 (failures - 1)),
                         sc(svc_name service \<mapsto> successes + 1), w')
                    | None \<Rightarrow>
                        call_loop truthy rest args
                          (fc(svc_name service \<mapsto> failures + 1)) sc w')
                 else call_loop truthy rest args fc sc w'
             | (Inl e, w') \<Rightarrow>
                 if is_Exception e
                 then call_loop truthy rest args
                        (fc(svc_name service \<mapsto> failures + 1)) sc w'
                 else (Inl e, fc, sc, w')))"

definition call ::
  "('a \<Rightarrow> bool) \<Rightarrow> ('arg, 'w, 'a) ServiceFallback \<Rightarrow> 'arg \<Rightarrow> 'w
   \<Rightarrow> (exn + 'a option) \<times> ('arg, 'w, 'a) ServiceFallback \<times> 'w" where
  "call truthy sf args w =
     (case call_loop truthy (services sf) args (failure_counts sf) (success_counts sf) w of
        (r, fc, sc, w') \<Rightarrow> (r, sf\<lparr>failure_counts := fc, success_counts := sc\<rparr>, w'))"

text \<open>
  What happened to each service the loop reached, in order: skipped for its failures,
  returned an empty result, returned a truthy one, raised an \<open>Exception\<close>, or raised
  a signal that left the loop.
\<close>

datatype event = Ev_skipped | Ev_empty | Ev_success | Ev_raised | Ev_aborted

fun call_trace ::
  "('a \<Rightarrow> bool) \<Rightarrow> ('arg, 'w, 'a) service list \<Rightarrow> 'arg \<Rightarrow> (string \<rightharpoonup> int)
   \<Rightarrow> (string \<rightharpoonup> int) \<Rightarrow> 'w \<Rightarrow> (string \<times> event) list" where
  "call_trace truthy [] args fc sc w = []"
| "call_trace truthy (service # rest) args fc sc w =
     (case fc (svc_name service) of
        None \<Rightarrow> [(svc_name service, Ev_aborted)]
      | Some failures \<Rightarrow>
          if failures > 3
          then (svc_name service, Ev_skipped) # call_trace truthy rest args fc sc w
          else
            (case svc_func service args w of
               (Inr result, w') \<Rightarrow>
                 if truthy result then
                   (case sc (svc_name service) of
                      Some successes \<Rightarrow> [(svc_name service, Ev_success)]
                    | None \<Rightarrow>
                        (svc_name service, Ev_raised) #
                        call_trace truthy rest args
                          (fc(svc_name service \<mapsto> failures + 1)) sc w')
                 else (svc_name service, Ev_empty) # call_trace truthy rest args fc sc w'
             | (Inl e, w') \<Rightarrow>
                 if is_Exception e
                 then (svc_name service, Ev_raised) #
                      call_trace truthy rest args
                        (fc(svc_name service \<mapsto> failures + 1)) sc w'
                 else [(svc_name service, Ev_aborted)]))"

section \<open>TTL cache (utils/cache.py)\<close>

text \<open>
  The cache keeps two files per key: the pickled value and a JSON metadata record.
  The file system is a map from paths to file contents, \<open>time.time()\<close> is the
  argument \<open>now\<close> of each operation, and values survive pickling unchanged. Reads
  and writes of files that exist succeed (the model has no I/O errors); a file with
  the wrong kind of content fails to load, which \<open>get\<close> turns into \<open>None\<close>.
  The state's own field is \<open>ttl\<close> in the source; it is \<open>self_ttl\<close> here, since
  the metadata has a field \<open>ttl\<close> too.
\<close>

record metadata =
  timestamp :: real
  ttl :: int
  key :: string

datatype 'v content = Pickle 'v | Json metadata

type_synonym 'v filesystem = "string \<rightharpoonup> 'v content"

record FileCache =
  namespace :: string
  self_ttl :: int
  cache_dir :: string

text \<open>\<open>settings.CACHE_DIR / namespace\<close>, with \<open>CACHE_DIR\<close> a parameter.\<close>

definition FileCache_init :: "string \<Rightarrow> string \<Rightarrow> int \<Rightarrow> FileCache" where
  "FileCache_init CACHE_DIR ns t =
     \<lparr>namespace = ns, self_ttl = t, cache_dir = CACHE_DIR @ ''/'' @ ns\<rparr>"

text \<open>
  \<open>_get_path\<close>: every character that is not alphanumeric, \<open>_\<close> or \<open>-\<close> becomes
  \<open>_\<close> (\<open>isalnum\<close> is \<open>str.isalnum\<close> on one character, a parameter).
  \<open>_get_meta_path\<close> replaces the suffix \<open>.cache\<close> by \<open>.meta\<close>; for the empty key
  the file name is \<open>.cache\<close>, which has no suffix, and \<open>.meta\<close> is appended.
\<close>

definition safe_key :: "(char \<Rightarrow> bool) \<Rightarrow> string \<Rightarrow> string" where
  "safe_key isalnum k =
     map (\<lambda>c. if isalnum c \<or> c \<in> set ''_-'' then c else CHR ''_'') k"

definition get_path :: "(char \<Rightarrow> bool) \<Rightarrow> FileCache \<Rightarrow> string \<Rightarrow> string" where
  "get_path isalnum self k = cache_dir self @ ''/'' @ safe_key isalnum k @ ''.cache''"

definition get_meta_path :: "(char \<Rightarrow> bool) \<Rightarrow> FileCache \<Rightarrow> string \<Rightarrow> string" where
  "get_meta_path isalnum self k =
     (if safe_key isalnum k = [] then cache_dir self @ ''/'' @ ''.cache.meta''
      else cache_dir self @ ''/'' @ safe_key isalnum k @ ''.meta'')"

text \<open>\<open>ttl or self.ttl\<close>: the argument when it is given and truthy, else the default.\<close>

definition ttl_or :: "int option \<Rightarrow> int \<Rightarrow> int" where
  "ttl_or ttl_arg dflt =
     (case ttl_arg of None \<Rightarrow> dflt | Some t \<Rightarrow> if t = 0 then dflt else t)"

definition FileCache_set ::
  "(char \<Rightarrow> bool) \<Rightarrow> FileCache \<Rightarrow> string \<Rightarrow> 'v \<Rightarrow> int option \<Rightarrow> real
   \<Rightarrow> 'v filesystem \<Rightarrow> 'v filesystem" where
  "FileCache_set isalnum self k v ttl_arg now fs =
     (let cache_path = get_path isalnum self k;
          meta_path = get_meta_path isalnum self k;
          fs1 = fs(cache_path \<mapsto> Pickle v);
          md = \<lparr>timestamp = now, ttl = ttl_or ttl_arg (self_ttl self), key = k\<rparr>
      in fs1(meta_path \<mapsto> Json md))"

definition FileCache_delete ::
  "(char \<Rightarrow> bool) \<Rightarrow> FileCache \<Rightarrow> string \<Rightarrow> 'v filesystem \<Rightarrow> 'v filesystem" where
  "FileCache_delete isalnum self k fs =
     (fs(get_path isalnum self k := None))(get_meta_path isalnum self k := None)"

definition FileCache_get ::
  "(char \<Rightarrow> bool) \<Rightarrow> FileCache \<Rightarrow> string \<Rightarrow> real \<Rightarrow> 'v filesystem
   \<Rightarrow> 'v option \<times> 'v filesystem" where
  "FileCache_get isalnum self k now fs =
     (let cache_path = get_path isalnum self k;
          meta_path = get_meta_path isalnum self k
      in case (fs cache_path, fs meta_path) of
           (Some cache_file, Some meta_file) \<Rightarrow>
             (case meta_file of
                Json md \<Rightarrow>
                  (let age = now - timestamp md in
                   if age > real_of_int (ttl md)
                   then (None, FileCache_delete isalnum self k fs)
                   else (case cache_file of
                           Pickle v \<Rightarrow> (Some v, fs)
                         | Json other \<Rightarrow> (None, fs)))
              | Pickle other \<Rightarrow> (None, fs))
         | _ \<Rightarrow> (None, fs))"

section \<open>Rate limiting (utils/retry.py)\<close>

text \<open>
  \<open>rate_limit(calls_per_second)\<close> computes \<open>min_interval = 1.0 / calls_per_second\<close>
  (ZeroDivisionError at 0) and keeps one cell \<open>last_called\<close>, initially \<open>0.0\<close>,
  shared by every call through the decorator.

  Time is a clock in the state, read by \<open>time.time()\<close>. A call has three
  non-negative durations: the idle time before it is issued, the time by which
  \<open>sleep\<close> oversleeps, and the time the wrapped function takes. Durations are exact
  reals.
\<close>

definition rate_limit_interval :: "real \<Rightarrow> exn + real" where
  "rate_limit_interval calls_per_second =
     (if calls_per_second = 0 then Inl (Exn ZeroDivisionError ''float division by zero'')
      else Inr (1 / calls_per_second))"

record 'w limiter =
  clock :: real
  last_called :: real
  world :: 'w

record timing =
  idle :: real
  oversleep :: real
  duration :: real

definition timing_ok :: "timing \<Rightarrow> bool" where
  "timing_ok t = (0 \<le> idle t \<and> 0 \<le> oversleep t \<and> 0 \<le> duration t)"

definition limiter_init :: "real \<Rightarrow> 'w \<Rightarrow> 'w limiter" where
  "limiter_init now w = \<lparr>clock = now, last_called = 0, world = w\<rparr>"

text \<open>
  One call through \<open>sync_wrapper\<close>, from start to end with nothing in between:
  read the clock, sleep for the difference if the last call is too recent, record
  the new timestamp, call the function. A call through \<open>async_wrapper\<close> runs the
  same steps when no other call is in flight.
\<close>

definition limited_call ::
  "real \<Rightarrow> ('w \<Rightarrow> (exn + 'a) \<times> 'w) \<Rightarrow> timing \<Rightarrow> 'w limiter \<Rightarrow> (exn + 'a) \<times> 'w limiter" where
  "limited_call min_interval func t s0 =
     (let s = s0\<lparr>clock := clock s0 + idle t\<rparr>;
          elapsed = clock s - last_called s;
          s1 = (if elapsed < min_interval
                then s\<lparr>clock := clock s + (min_interval - elapsed) + oversleep t\<rparr>
                else s);
          s2 = s1\<lparr>last_called := clock s1\<rparr>;
          (r, w') = func (world s2)
      in (r, s2\<lparr>clock := clock s2 + duration t, world := w'\<rparr>))"

text \<open>\<open>N\<close> calls, one per timing of the list, each issued when the one before is over.\<close>

definition issue_calls ::
  "real \<Rightarrow> ('w \<Rightarrow> (exn + 'a) \<times> 'w) \<Rightarrow> timing list \<Rightarrow> 'w limiter \<Rightarrow> 'w limiter" where
  "issue_calls min_interval func ts s =
     foldl (\<lambda>s t. snd (limited_call min_interval func t s)) s ts"

subsection \<open>Calls in flight together\<close>

text \<open>
  \<open>async_wrapper\<close> is a coroutine. It reads the clock and \<open>last_called\<close>, and
  when the last call is too recent it awaits \<open>asyncio.sleep\<close>: there the event
  loop runs other tasks. Only after the sleep does it record the new timestamp and
  await the function. Calls that are in flight together interleave at that point.

  A call in flight is waiting for its sleep to end (\<open>Sleeping until\<close>) or is over,
  with its outcome. The wrapped function here takes no time and does not wait.
\<close>

datatype 'a in_flight = Sleeping real | Over "exn + 'a"

text \<open>
  The first segment of a call, up to its sleep. A call that need not sleep runs on:
  it records the timestamp and calls the function.
\<close>

definition async_start ::
  "real \<Rightarrow> ('w \<Rightarrow> (exn + 'a) \<times> 'w) \<Rightarrow> 'w limiter \<Rightarrow> 'a in_flight \<times> 'w limiter" where
  "async_start min_interval func s =
     (let elapsed = clock s - last_called s in
      if elapsed < min_interval
      then (Sleeping (clock s + (min_interval - elapsed)), s)
      else (let s2 = s\<lparr>last_called := clock s\<rparr>;
                (r, w') = func (world s2)
            in (Over r, s2\<lparr>world := w'\<rparr>)))"

text \<open>
  The segment after the sleep: the clock has reached the end of the sleep; the call
  records the timestamp and calls the function.
\<close>

definition async_resume ::
  "('w \<Rightarrow> (exn + 'a) \<times> 'w) \<Rightarrow> 'a in_flight \<Rightarrow> 'w limiter \<Rightarrow> (exn + 'a) \<times> 'w limiter" where
  "async_resume func c s =
     (case c of
        Over r \<Rightarrow> (r, s)
      | Sleeping until \<Rightarrow>
          (let s1 = s\<lparr>clock := max (clock s) until\<rparr>;
               s2 = s1\<lparr>last_called := clock s1\<rparr>;
               (r, w') = func (world s2)
           in (r, s2\<lparr>world := w'\<rparr>)))"

text \<open>
  \<open>n\<close> calls issued together, as by \<open>asyncio.gather\<close>: the event loop runs the
  first segment of each, in order, and then resumes the sleeping ones as their
  sleeps end. The calls started together read the same \<open>last_called\<close> unless the
  first of them records a new one, so their sleeps end at the same time, and they
  are resumed in the order in which they were started.
\<close>

fun start_calls ::
  "real \<Rightarrow> ('w \<Rightarrow> (exn + 'a) \<times> 'w) \<Rightarrow> nat \<Rightarrow> 'w limiter \<Rightarrow> 'a in_flight list \<times> 'w limiter" where
  "start_calls min_interval func 0 s = ([], s)"
| "start_calls min_interval func (Suc n) s =
     (case async_start min_interval func s of (c, s1) \<Rightarrow>
        (case start_calls min_interval func n s1 of (cs, s2) \<Rightarrow> (c # cs, s2)))"

fun finish_calls ::
  "('w \<Rightarrow> (exn + 'a) \<times> 'w) \<Rightarrow> 'a in_flight list \<Rightarrow> 'w limiter \<Rightarrow> (exn + 'a) list \<times> 'w limiter" where
  "finish_calls func [] s = ([], s)"
| "finish_calls func (c # cs) s =
     (case async_resume func c s of (r, s1) \<Rightarrow>
        (case finish_calls func cs s1 of (rs, s2) \<Rightarrow> (r # rs, s2)))"

definition overlapping_calls ::
  "real \<Rightarrow> ('w \<Rightarrow> (exn + 'a) \<times> 'w) \<Rightarrow> nat \<Rightarrow> 'w limiter \<Rightarrow> (exn + 'a) list \<times> 'w limiter" where
  "overlapping_calls min_interval func n s =
     (case start_calls min_interval func n s of (cs, s1) \<Rightarrow> finish_calls func cs s1)"

section \<open>Fan-out groups (agents/graph\_builder.py)\<close>

subsection \<open>Objects, coroutines and the event loop\<close>

text \<open>
  Both fan-out functions hand the \<^emph>\<open>same\<close> state object to every branch, and every
  branch returns the object it was given. What the merge loop does then depends on this
  aliasing, so state objects live in a store: a reference is an address, and the heap
  maps addresses to states.

  \<open>asyncio.gather(..., return_exceptions=True)\<close> collects, for each branch, the
  exception it raised or the object it returned.
\<close>

type_synonym ref = nat

type_synonym heap = "ref \<Rightarrow> ResearchState"

datatype result = Raised exn | Returned ref

text \<open>
  A coroutine is either finished, with its result, or suspended: \<open>Suspended eff k\<close>
  is resumed on a heap \<open>h\<close> by running its next segment (the code up to the next
  point where it waits for I/O or sleeps), which leaves the heap \<open>eff h\<close> and the
  coroutine \<open>k h\<close>. A coroutine that was not started yet is suspended before its first
  segment. Segments are atomic: the event loop runs one task at a time and switches
  only where a task waits.
\<close>

datatype coro = Finished result | Suspended "heap \<Rightarrow> heap" "heap \<Rightarrow> coro"

fun resume :: "coro \<Rightarrow> heap \<Rightarrow> heap \<times> coro" where
  "resume (Finished res) h = (h, Finished res)"
| "resume (Suspended eff k) h = (eff h, k h)"

text \<open>
  \<open>await inner\<close> inside a wrapper: the wrapper runs the segments of \<open>inner\<close> and
  goes on with \<open>f res\<close> in the segment where \<open>inner\<close> finishes with \<open>res\<close>.
  \<open>await_then c\<close> is "wait (sleep), then go on as \<open>c\<close>": a suspension, after which
  the first segment of \<open>c\<close> runs.
\<close>

primrec bind :: "coro \<Rightarrow> (result \<Rightarrow> coro) \<Rightarrow> coro" where
  "bind (Finished res) f = f res"
| "bind (Suspended eff k) f = Suspended eff (\<lambda>h. bind (k h) f)"

fun await_then :: "coro \<Rightarrow> coro" where
  "await_then (Finished res) = Suspended (\<lambda>h. h) (\<lambda>h. Finished res)"
| "await_then (Suspended eff k) = Suspended eff k"

text \<open>
  The event loop. \<open>gather\<close> makes one task per coroutine and the loop first runs the
  first segment of each, in argument order; from then on a task is resumed when what
  it waits for is ready, in an order the program does not control. That order is the
  schedule: a list of task indices. Resuming a finished task does nothing.
  \<open>gather\<close> returns when every task has finished, with the results in argument
  order; \<open>None\<close> says that the schedule ended before that.
\<close>

fun run_schedule :: "nat list \<Rightarrow> coro list \<Rightarrow> heap \<Rightarrow> heap \<times> coro list" where
  "run_schedule [] cs h = (h, cs)"
| "run_schedule (i # sched) cs h =
     (if i < length cs
      then (case resume (cs ! i) h of (h', c') \<Rightarrow> run_schedule sched (cs[i := c']) h')
      else run_schedule sched cs h)"

fun results_of :: "coro list \<Rightarrow> result list option" where
  "results_of [] = Some []"
| "results_of (Finished res # cs) = map_option (\<lambda>rs. res # rs) (results_of cs)"
| "results_of (Suspended eff k # cs) = None"

definition gather :: "nat list \<Rightarrow> coro list \<Rightarrow> heap \<Rightarrow> (result list \<times> heap) option" where
  "gather sched cs h =
     (case run_schedule ([0..<length cs] @ sched) cs h of
        (h', cs') \<Rightarrow> map_option (\<lambda>rs. (rs, h')) (results_of cs'))"

subsection \<open>The decorators of the branches, on coroutines\<close>

text \<open>
  \<open>async_wrapper\<close> of \<open>retry\<close>: \<open>n\<close> attempts are left and \<open>attempt\<close> is the
  loop index; \<open>body attempt\<close> is the coroutine of that attempt. The wait before the
  next attempt is a suspension. With no attempt left (only when \<open>max_attempts \<le> 0\<close>)
  the code after the loop raises.
\<close>

primrec retry_coro :: "nat \<Rightarrow> (exn \<Rightarrow> bool) \<Rightarrow> (nat \<Rightarrow> coro) \<Rightarrow> nat \<Rightarrow> coro" where
  "retry_coro 0 exceptions body attempt =
     Finished (Raised (Exn TypeError ''exceptions must derive from BaseException''))"
| "retry_coro (Suc n) exceptions body attempt =
     bind (body attempt)
       (\<lambda>res. case res of
          Returned x \<Rightarrow> Finished (Returned x)
        | Raised e \<Rightarrow>
            if exceptions e then
              (if n = 0 then Finished (Raised e)
               else await_then (retry_coro n exceptions body (Suc attempt)))
            else Finished (Raised e))"

text \<open>
  \<open>async_wrapper\<close> of \<open>rate_limit\<close>: it sleeps first when the last call is too
  recent (\<open>sleeps\<close>, which the clock decides), then runs the function.
\<close>

definition rate_limited :: "bool \<Rightarrow> coro \<Rightarrow> coro" where
  "rate_limited sleeps body = (if sleeps then Suspended (\<lambda>h. h) (\<lambda>h. body) else body)"

subsection \<open>Group A: the two branches\<close>

text \<open>
  A branch is embedded as its skeleton: what it reads from and writes to the state,
  where it can raise and where it waits. What its external calls answer is a
  parameter. Where a branch waits several times without touching the state in
  between, the waits are one suspension.

  \<open>fetch_sec_data\<close> (nodes/sec\_data.py): one attempt sets \<open>current_node\<close>, raises
  ValueError when \<open>cik10\<close> is missing, requests the company facts and stores them,
  then requests the submissions and stores them. A request that fails raises.
\<close>

record sec_io =
  limiter_sleeps :: bool
  facts_response :: "exn + payload"
  submissions_response :: "exn + payload"

definition await_submissions :: "sec_io \<Rightarrow> ref \<Rightarrow> coro" where
  "await_submissions io state =
     Suspended
       (\<lambda>h. case submissions_response io of
               Inl e \<Rightarrow> h
             | Inr v \<Rightarrow> h(state := (h state)\<lparr>submissions := v\<rparr>))
       (\<lambda>h. case submissions_response io of
               Inl e \<Rightarrow> Finished (Raised e)
             | Inr v \<Rightarrow> Finished (Returned state))"

definition await_companyfacts :: "sec_io \<Rightarrow> ref \<Rightarrow> coro" where
  "await_companyfacts io state =
     Suspended
       (\<lambda>h. case facts_response io of
               Inl e \<Rightarrow> h
             | Inr v \<Rightarrow> h(state := (h state)\<lparr>companyfacts := v\<rparr>))
       (\<lambda>h. case facts_response io of
               Inl e \<Rightarrow> Finished (Raised e)
             | Inr v \<Rightarrow> await_submissions io state)"

definition fetch_sec_data_body :: "sec_io \<Rightarrow> ref \<Rightarrow> coro" where
  "fetch_sec_data_body io state =
     Suspended
       (\<lambda>h. h(state := (h state)\<lparr>current_node := ''sec_fetch''\<rparr>))
       (\<lambda>h. if \<not> truthy_str (cik10 (h state))
            then Finished (Raised (Exn ValueError ''CIK not set - company must be resolved first''))
            else await_companyfacts io state)"

text \<open>
  The branch as the coordinator calls it:
  \<open>@retry(max_attempts=3, exceptions=(aiohttp.ClientError,))\<close> over
  \<open>@rate_limit(...)\<close> over the body. \<open>ios attempt\<close> is what the outside world
  answers during that attempt.
\<close>

definition fetch_sec_data :: "(nat \<Rightarrow> sec_io) \<Rightarrow> ref \<Rightarrow> coro" where
  "fetch_sec_data ios state =
     retry_coro 3 is_ClientError
       (\<lambda>attempt. rate_limited (limiter_sleeps (ios attempt))
                     (fetch_sec_data_body (ios attempt) state))
       0"

text \<open>
  \<open>fetch_company_profile\<close> (nodes/web\_research.py) sets \<open>current_node\<close>, returns
  at once when no company is resolved, and otherwise searches, fetches and extracts
  (\<open>outcome\<close>: the profile it builds, or the exception that escapes it) and stores
  the profile as its last step.
\<close>

definition fetch_company_profile :: "exn + CompanyProfile \<Rightarrow> ref \<Rightarrow> coro" where
  "fetch_company_profile outcome state =
     Suspended
       (\<lambda>h. h(state := (h state)\<lparr>current_node := ''web_profile''\<rparr>))
       (\<lambda>h. if found (h state) = None then Finished (Returned state)
            else Suspended
                   (\<lambda>h. case outcome of
                           Inl e \<Rightarrow> h
                         | Inr p \<Rightarrow> h(state := (h state)\<lparr>company_profile := Some p\<rparr>))
                   (\<lambda>h. case outcome of
                           Inl e \<Rightarrow> Finished (Raised e)
                         | Inr p \<Rightarrow> Finished (Returned state)))"

record io_A =
  sec_attempts :: "nat \<Rightarrow> sec_io"
  profile_outcome :: "exn + CompanyProfile"

subsection \<open>parallel\_initial\_data\<close>

text \<open>
  The body of the merge loop for one gathered result: nothing for an exception; for a
  returned state object \<open>result\<close>, each of the three fields is copied from \<open>result\<close>
  to \<open>state\<close> when it is truthy in \<open>result\<close>. The reads go through the heap as the
  loop has left it so far.
\<close>

definition merge_initial :: "ref \<Rightarrow> heap \<Rightarrow> result \<Rightarrow> heap" where
  "merge_initial state h res =
     (case res of
        Raised e \<Rightarrow> h
      | Returned result \<Rightarrow>
          (let h1 = (if companyfacts (h result) \<noteq> []
                     then h(state := (h state)\<lparr>companyfacts := companyfacts (h result)\<rparr>)
                     else h);
               h2 = (if submissions (h1 result) \<noteq> []
                     then h1(state := (h1 state)\<lparr>submissions := submissions (h1 result)\<rparr>)
                     else h1)
           in if company_profile (h2 result) \<noteq> None
              then h2(state := (h2 state)\<lparr>company_profile := company_profile (h2 result)\<rparr>)
              else h2))"

definition initial_data_branches :: "io_A \<Rightarrow> ref \<Rightarrow> coro list" where
  "initial_data_branches io state =
     [fetch_sec_data (sec_attempts io) state,
      fetch_company_profile (profile_outcome io) state]"

definition parallel_initial_data ::
  "nat list \<Rightarrow> io_A \<Rightarrow> ref \<Rightarrow> heap \<Rightarrow> (ref \<times> heap) option" where
  "parallel_initial_data sched io state h =
     (case gather sched (initial_data_branches io state) h of
        None \<Rightarrow> None
      | Some (results, h1) \<Rightarrow> Some (state, foldl (merge_initial state) h1 results))"

subsection \<open>Group B: the four branches\<close>

text \<open>
  \<open>fetch_news_timeline\<close> never waits (its search is a blocking call), so it runs
  from start to end in its first segment: \<open>current_node\<close>, the early return when no
  company is resolved, then the search (\<open>outcome\<close>: the de-duplicated items, or the
  exception that escapes) and the assignment.
\<close>

definition fetch_news_timeline :: "exn + SearchResult list \<Rightarrow> ref \<Rightarrow> coro" where
  "fetch_news_timeline outcome state =
     Suspended
       (\<lambda>h. let h1 = h(state := (h state)\<lparr>current_node := ''news''\<rparr>) in
            if found (h state) = None then h1
            else (case outcome of
                    Inl e \<Rightarrow> h1
                  | Inr items \<Rightarrow> h1(state := (h1 state)\<lparr>news_timeline := items\<rparr>)))
       (\<lambda>h. if found (h state) = None then Finished (Returned state)
            else (case outcome of
                    Inl e \<Rightarrow> Finished (Raised e)
                  | Inr items \<Rightarrow> Finished (Returned state)))"

text \<open>
  \<open>identify_competitors\<close>: its searches are blocking calls in the first segment, and
  an exception of theirs escapes there (\<open>outcome = Inl e\<close>). It waits for the LLM
  only when the searches found something (\<open>waits\<close>); an LLM failure is caught. Its
  last step assigns \<open>competitors\<close>, possibly the empty list.
\<close>

definition identify_competitors :: "exn + payload list \<Rightarrow> bool \<Rightarrow> ref \<Rightarrow> coro" where
  "identify_competitors outcome waits state =
     Suspended
       (\<lambda>h. let h1 = h(state := (h state)\<lparr>current_node := ''competitors''\<rparr>) in
            if found (h state) = None then h1
            else (case outcome of
                    Inl e \<Rightarrow> h1
                  | Inr cs \<Rightarrow> if waits then h1
                             else h1(state := (h1 state)\<lparr>competitors := cs\<rparr>)))
       (\<lambda>h. if found (h state) = None then Finished (Returned state)
            else (case outcome of
                    Inl e \<Rightarrow> Finished (Raised e)
                  | Inr cs \<Rightarrow>
                      if waits
                      then Suspended (\<lambda>h. h(state := (h state)\<lparr>competitors := cs\<rparr>))
                                     (\<lambda>h. Finished (Returned state))
                      else Finished (Returned state)))"

text \<open>
  \<open>extract_investor_materials\<close> never waits. It returns early without submissions
  or without recent filings (\<open>outcome = Inr None\<close>); otherwise it appends the first
  ten materials to \<open>company_profile.investor_docs\<close> when there is a profile. It
  assigns no field of the state itself.
\<close>

definition extract_investor_materials :: "exn + payload list option \<Rightarrow> ref \<Rightarrow> coro" where
  "extract_investor_materials outcome state =
     Suspended
       (\<lambda>h. let h1 = h(state := (h state)\<lparr>current_node := ''investor_docs''\<rparr>) in
            if submissions (h state) = [] then h1
            else (case outcome of
                    Inl e \<Rightarrow> h1
                  | Inr None \<Rightarrow> h1
                  | Inr (Some materials) \<Rightarrow>
                      (case company_profile (h state) of
                         None \<Rightarrow> h1
                       | Some p \<Rightarrow>
                           h1(state := (h1 state)\<lparr>company_profile :=
                                Some (p\<lparr>investor_docs :=
                                         investor_docs p @ take 10 materials\<rparr>)\<rparr>))))
       (\<lambda>h. if submissions (h state) = [] then Finished (Returned state)
            else (case outcome of
                    Inl e \<Rightarrow> Finished (Raised e)
                  | Inr x \<Rightarrow> Finished (Returned state)))"

text \<open>
  \<open>analyze_social_sentiment\<close> (nodes/sentiment\_analysis.py): it waits for the LLM
  batches only when it scraped snippets (\<open>waits\<close>); its last step assigns
  \<open>social_sentiment\<close>, or lets an exception of the aggregation escape.
\<close>

definition analyze_social_sentiment :: "exn + payload \<Rightarrow> bool \<Rightarrow> ref \<Rightarrow> coro" where
  "analyze_social_sentiment outcome waits state =
     Suspended
       (\<lambda>h. let h1 = h(state := (h state)\<lparr>current_node := ''sentiment''\<rparr>) in
            if found (h state) = None \<or> waits then h1
            else (case outcome of
                    Inl e \<Rightarrow> h1
                  | Inr v \<Rightarrow> h1(state := (h1 state)\<lparr>social_sentiment := Some v\<rparr>)))
       (\<lambda>h. if found (h state) = None then Finished (Returned state)
            else if waits
            then Suspended
                   (\<lambda>h. case outcome of
                           Inl e \<Rightarrow> h
                         | Inr v \<Rightarrow> h(state := (h state)\<lparr>social_sentiment := Some v\<rparr>))
                   (\<lambda>h. case outcome of
                           Inl e \<Rightarrow> Finished (Raised e)
                         | Inr v \<Rightarrow> Finished (Returned state))
            else (case outcome of
                    Inl e \<Rightarrow> Finished (Raised e)
                  | Inr v \<Rightarrow> Finished (Returned state)))"

record io_B =
  news_outcome :: "exn + SearchResult list"
  competitors_outcome :: "exn + payload list"
  competitors_waits :: bool
  materials_outcome :: "exn + payload list option"
  sentiment_outcome :: "exn + payload"
  sentiment_waits :: bool

subsection \<open>parallel\_deep\_research\<close>

text \<open>
  The merge loop of Group B. \<open>ResearchState\<close> declares no attribute
  \<open>investor_docs\<close>, so \<open>hasattr(result, 'investor_docs')\<close> is false and that
  assignment never runs. \<open>social_sentiment\<close> is truthy when it is a non-empty
  dictionary.
\<close>

definition merge_deep :: "ref \<Rightarrow> heap \<Rightarrow> result \<Rightarrow> heap" where
  "merge_deep state h res =
     (case res of
        Raised e \<Rightarrow> h
      | Returned result \<Rightarrow>
          (let h1 = (if news_timeline (h result) \<noteq> []
                     then h(state := (h state)\<lparr>news_timeline := news_timeline (h result)\<rparr>)
                     else h);
               h2 = (if competitors (h1 result) \<noteq> []
                     then h1(state := (h1 state)\<lparr>competitors := competitors (h1 result)\<rparr>)
                     else h1)
           in if social_sentiment (h2 result) \<noteq> None \<and> social_sentiment (h2 result) \<noteq> Some []
              then h2(state := (h2 state)\<lparr>social_sentiment := social_sentiment (h2 result)\<rparr>)
              else h2))"

definition deep_research_branches :: "io_B \<Rightarrow> ref \<Rightarrow> coro list" where
  "deep_research_branches io state =
     [fetch_news_timeline (news_outcome io) state,
      identify_competitors (competitors_outcome io) (competitors_waits io) state,
      extract_investor_materials (materials_outcome io) state,
      analyze_social_sentiment (sentiment_outcome io) (sentiment_waits io) state]"

definition parallel_deep_research ::
  "nat list \<Rightarrow> io_B \<Rightarrow> ref \<Rightarrow> heap \<Rightarrow> (ref \<times> heap) option" where
  "parallel_deep_research sched io state h =
     (case gather sched (deep_research_branches io state) h of
        None \<Rightarrow> None
      | Some (results, h1) \<Rightarrow> Some (state, foldl (merge_deep state) h1 results))"

subsection \<open>Running to completion, aliasing and independence\<close>

text \<open>
  \<open>solo c h\<close>: the result and the heap when \<open>c\<close> runs alone until it finishes.
  \<open>sequential\<close> is the run of a group in which, after the first segments, no two
  branches overlap: each runs to its end before the next goes on.
\<close>

primrec solo :: "coro \<Rightarrow> heap \<Rightarrow> result \<times> heap" where
  "solo (Finished res) h = (res, h)"
| "solo (Suspended eff k) h = solo (k h) (eff h)"

fun solo_all :: "coro list \<Rightarrow> heap \<Rightarrow> result list \<times> heap" where
  "solo_all [] h = ([], h)"
| "solo_all (c # cs) h =
     (case solo c h of (res, h1) \<Rightarrow>
        (case solo_all cs h1 of (rs, h2) \<Rightarrow> (res # rs, h2)))"

definition sequential :: "coro list \<Rightarrow> heap \<Rightarrow> result list \<times> heap" where
  "sequential cs h =
     (case run_schedule [0..<length cs] cs h of (h1, cs1) \<Rightarrow> solo_all cs1 h1)"

text \<open>
  \<open>yields state c\<close>: whenever \<open>c\<close> finishes it has raised or returned the object
  \<open>state\<close>. \<open>commutes w c\<close>: the write \<open>w\<close> can be moved across every segment of
  \<open>c\<close>, and \<open>c\<close> takes no decision on what \<open>w\<close> writes.
\<close>

inductive yields :: "ref \<Rightarrow> coro \<Rightarrow> bool" where
  yields_raised: "yields state (Finished (Raised e))"
| yields_returned: "yields state (Finished (Returned state))"
| yields_suspended: "(\<And>h. yields state (k h)) \<Longrightarrow> yields state (Suspended eff k)"

inductive commutes :: "(heap \<Rightarrow> heap) \<Rightarrow> coro \<Rightarrow> bool" where
  commutes_finished: "commutes w (Finished res)"
| commutes_suspended:
    "(\<And>h. eff (w h) = w (eff h)) \<Longrightarrow> (\<And>h. k (w h) = k h) \<Longrightarrow> (\<And>h. commutes w (k h))
     \<Longrightarrow> commutes w (Suspended eff k)"

text \<open>The last write of \<open>fetch_company_profile\<close> and of \<open>identify_competitors\<close>.\<close>

definition profile_write :: "exn + CompanyProfile \<Rightarrow> ref \<Rightarrow> heap \<Rightarrow> heap" where
  "profile_write out st h =
     (case out of Inl e \<Rightarrow> h | Inr p \<Rightarrow> h(st := (h st)\<lparr>company_profile := Some p\<rparr>))"

definition competitors_write :: "payload list \<Rightarrow> ref \<Rightarrow> heap \<Rightarrow> heap" where
  "competitors_write cs st h = h(st := (h st)\<lparr>competitors := cs\<rparr>)"

text \<open>
  The state object a fan-out function returns, read from the heap it leaves; and the
  results \<open>gather\<close> collected.
\<close>

definition merged_state :: "(ref \<times> heap) option \<Rightarrow> ResearchState option" where
  "merged_state x = (case x of None \<Rightarrow> None | Some (st, h) \<Rightarrow> Some (h st))"

definition gathered :: "(result list \<times> heap) option \<Rightarrow> result list option" where
  "gathered x = (case x of None \<Rightarrow> None | Some (rs, h) \<Rightarrow> Some rs)"

text \<open>A heap in which every address holds the state \<open>s\<close>.\<close>

definition single_heap :: "ResearchState \<Rightarrow> heap" where
  "single_heap s = (\<lambda>a. s)"

subsection \<open>The merge policy in the words of the specification\<close>

text \<open>
  The specification's merge policy, for comparison with the code: the results are
  folded into the pre-fan-out state in declaration order; a branch that raised is
  skipped; from a branch that returned, each field that branch owns overwrites the
  state's field only if the returned value is present. \<open>own i result state\<close> merges
  the fields owned by branch \<open>i\<close>.
\<close>

fun spec_fold ::
  "(nat \<Rightarrow> ResearchState \<Rightarrow> ResearchState \<Rightarrow> ResearchState) \<Rightarrow> nat \<Rightarrow> ResearchState
   \<Rightarrow> (exn + ResearchState) list \<Rightarrow> ResearchState" where
  "spec_fold own i state [] = state"
| "spec_fold own i state (Inl e # rest) = spec_fold own (Suc i) state rest"
| "spec_fold own i state (Inr result # rest) =
     spec_fold own (Suc i) (own i result state) rest"

definition own_initial :: "nat \<Rightarrow> ResearchState \<Rightarrow> ResearchState \<Rightarrow> ResearchState" where
  "own_initial i result state =
     (if i = 0 then
        (let s1 = (if companyfacts result \<noteq> []
                   then state\<lparr>companyfacts := companyfacts result\<rparr> else state)
         in if submissions result \<noteq> []
            then s1\<lparr>submissions := submissions result\<rparr> else s1)
      else if i = 1 then
        (if company_profile result \<noteq> None
         then state\<lparr>company_profile := company_profile result\<rparr> else state)
      else state)"

definition own_deep :: "nat \<Rightarrow> ResearchState \<Rightarrow> ResearchState \<Rightarrow> ResearchState" where
  "own_deep i result state =
     (if i = 0 then
        (if news_timeline result \<noteq> []
         then state\<lparr>news_timeline := news_timeline result\<rparr> else state)
      else if i = 1 then
        (if competitors result \<noteq> []
         then state\<lparr>competitors := competitors result\<rparr> else state)
      else if i = 3 then
        (if social_sentiment result \<noteq> None \<and> social_sentiment result \<noteq> Some []
         then state\<lparr>social_sentiment := social_sentiment result\<rparr> else state)
      else state)"

text \<open>The value of a gathered result: the exception, or the returned object's state.\<close>

definition branch_value :: "heap \<Rightarrow> result \<Rightarrow> exn + ResearchState" where
  "branch_value h res = (case res of Raised e \<Rightarrow> Inl e | Returned r \<Rightarrow> Inr (h r))"

text \<open>
  What the merged state would be by that policy: the fold over the pre-fan-out state
  \<open>h state\<close> of the results the branches of the run returned.
\<close>

definition claimed_initial_data ::
  "nat list \<Rightarrow> io_A \<Rightarrow> ref \<Rightarrow> heap \<Rightarrow> ResearchState option" where
  "claimed_initial_data sched io state h =
     (case gather sched (initial_data_branches io state) h of
        None \<Rightarrow> None
      | Some (results, h1) \<Rightarrow>
          Some (spec_fold own_initial 0 (h state) (map (branch_value h1) results)))"

definition claimed_deep_research ::
  "nat list \<Rightarrow> io_B \<Rightarrow> ref \<Rightarrow> heap \<Rightarrow> ResearchState option" where
  "claimed_deep_research sched io state h =
     (case gather sched (deep_research_branches io state) h of
        None \<Rightarrow> None
      | Some (results, h1) \<Rightarrow>
          Some (spec_fold own_deep 0 (h state) (map (branch_value h1) results)))"

section \<open>Concrete inputs\<close>

text \<open>States, callables and built-ins at which the theorems below are instantiated.\<close>

definition demo_match :: "string \<Rightarrow> string \<Rightarrow> CompanyMatch" where
  "demo_match t c = \<lparr>title = t, ticker = t, cik_str = c, match_cik10 = Some c\<rparr>"

definition demo_state :: ResearchState where
  "demo_state = (new_state ''Apple'')\<lparr>match_options :=
       [demo_match ''AAPL'' ''0000320193'', demo_match ''APLE'' ''0001418121'']\<rparr>"

text \<open>\<open>int(s.strip())\<close> on the three inputs the examples use.\<close>

definition demo_int :: "string \<Rightarrow> int option" where
  "demo_int s = (if s = ''1'' then Some 1 else if s = ''2'' then Some 2
                 else if s = ''7'' then Some 7 else None)"





text \<open>
  Python's power on operands where the float result is the exact power (small
  integral bases and exponents), and \<open>time.sleep\<close> on durations below its overflow
  bound: a negative one raises ValueError.
\<close>

definition exact_power :: "real \<Rightarrow> nat \<Rightarrow> exn + real" where
  "exact_power b n = Inr (b ^ n)"

definition time_sleep :: "real \<Rightarrow> exn option" where
  "time_sleep d =
     (if d < 0 then Some (Exn ValueError ''sleep length must be non-negative'') else None)"

text \<open>
  A callable that counts its calls: it fails with \<open>e1\<close> while fewer than \<open>k\<close> calls
  were made, then behaves as \<open>final\<close>.
\<close>

definition flaky :: "nat \<Rightarrow> exn \<Rightarrow> exn + string \<Rightarrow> nat \<Rightarrow> (exn + string) \<times> nat" where
  "flaky k e1 final calls = (if calls < k then Inl e1 else final, Suc calls)"

text \<open>
  A strategy (or service callable) with a fixed outcome, which appends its name to the
  world: the world is then the list of the callables invoked, in order. Results are
  lists, truthy when non-empty.
\<close>

definition logged :: "string \<Rightarrow> exn + string list \<Rightarrow> string \<Rightarrow> string list \<Rightarrow> (exn + string list) \<times> string list" where
  "logged n out args w = (out, w @ [n])"

text \<open>
  The truth value of the exception objects of the examples: instances of classes that
  define neither \<open>__bool__\<close> nor \<open>__len__\<close>, like every built-in exception class.
\<close>

definition standard_exception :: "exn \<Rightarrow> bool" where
  "standard_exception e = True"

definition nonempty :: "string list \<Rightarrow> bool" where
  "nonempty xs = (xs \<noteq> [])"

definition demo_chain ::
  "(string \<times> (exn + string list)) list \<Rightarrow> (string, string list, string list) FallbackChain" where
  "demo_chain outs =
     foldl (\<lambda>chain (n, out). add_strategy n (logged n out) chain)
       (FallbackChain_init ''search'') outs"

definition demo_services :: "(string, string list, string list) ServiceFallback" where
  "demo_services =
     register ''primary'' (logged ''primary'' (Inr [])) 1
       (register ''down'' (logged ''down'' (Inl (Exn ClientError ''refused''))) 0
         (register ''backup'' (logged ''backup'' (Inr [''hit''])) 2
           (ServiceFallback_init ''search'')))"

text \<open>A call that takes no time, with no idle time before it and an exact sleep.\<close>

definition instant :: timing where
  "instant = \<lparr>idle = 0, oversleep = 0, duration = 0\<rparr>"

definition noop :: "unit \<Rightarrow> (exn + unit) \<times> unit" where
  "noop w = (Inr (), w)"

text \<open>
  States and outside worlds for the fan-out groups. \<open>demo_resolved\<close>: the company is
  resolved. \<open>demo_no_cik\<close>: resolved, but the candidate's CIK is not numeric, so
  \<open>cik10\<close> is absent. \<open>demo_revisited\<close>: a state that already lists a competitor.
\<close>

definition demo_resolved :: ResearchState where
  "demo_resolved = (new_state ''Apple'')\<lparr>found := Some (demo_match ''AAPL'' ''0000320193''),
       cik10 := Some ''0000320193''\<rparr>"

definition demo_no_cik :: ResearchState where
  "demo_no_cik = (new_state ''Apple'')\<lparr>found := Some (demo_match ''AAPL'' ''n/a'')\<rparr>"

definition demo_revisited :: ResearchState where
  "demo_revisited = demo_resolved\<lparr>competitors := [[(''name'', ''Samsung'')]]\<rparr>"

definition demo_profile :: CompanyProfile where
  "demo_profile = \<lparr>description = ''Apple designs phones'', profile_url = None,
                   investor_docs = [], industry = Some ''Technology''\<rparr>"

text \<open>
  The company facts arrive, every request for the submissions fails with a client
  error, the profile is built.
\<close>

definition submissions_fail :: io_A where
  "submissions_fail =
     \<lparr>sec_attempts = (\<lambda>attempt. \<lparr>limiter_sleeps = False,
                                  facts_response = Inr [(''entityName'', ''Apple Inc.'')],
                                  submissions_response = Inl (Exn ClientError ''503'')\<rparr>),
      profile_outcome = Inr demo_profile\<rparr>"

text \<open>
  Every branch of Group B succeeds; the searches return nothing, so the news and the
  competitors are empty lists.
\<close>

definition nothing_found :: io_B where
  "nothing_found =
     \<lparr>news_outcome = Inr [], competitors_outcome = Inr [], competitors_waits = False,
      materials_outcome = Inr None,
      sentiment_outcome = Inr [(''aggregate'', ''0 analyzed'')], sentiment_waits = False\<rparr>"

text \<open>Both waiting branches of Group B have something to store.\<close>

definition both_wait :: io_B where
  "both_wait =
     \<lparr>news_outcome = Inr [], competitors_outcome = Inr [[(''name'', ''Samsung'')]],
      competitors_waits = True, materials_outcome = Inr None,
      sentiment_outcome = Inr [(''aggregate'', ''12 analyzed'')], sentiment_waits = True\<rparr>"

text \<open>
  The company facts arrive, the request for the submissions runs into the total
  timeout (\<open>asyncio.TimeoutError\<close>, which is not a client error and is not retried),
  and the profile search fails.
\<close>

definition timed_out :: io_A where
  "timed_out =
     \<lparr>sec_attempts = (\<lambda>attempt. \<lparr>limiter_sleeps = False,
                                  facts_response = Inr [(''entityName'', ''Apple Inc.'')],
                                  submissions_response = Inl (Exn OtherException ''TimeoutError'')\<rparr>),
      profile_outcome = Inl (Exn OtherException ''search failed'')\<rparr>"

text \<open>Both requests are answered at the first attempt and the profile is built.\<close>

definition all_answered :: io_A where
  "all_answered =
     \<lparr>sec_attempts = (\<lambda>attempt. \<lparr>limiter_sleeps = True,
                                  facts_response = Inr [(''entityName'', ''Apple Inc.'')],
                                  submissions_response = Inr [(''name'', ''Apple Inc.'')]\<rparr>),
      profile_outcome = Inr demo_profile\<rparr>"

section \<open>Theorems\<close>

subsection \<open>C5: the router after match\_candidates\<close>

text \<open>
  C5. \<open>should_validate\<close> returns \<open>data_collection\<close> whenever \<open>found\<close> is set,
  \<open>suggest\<close> whenever \<open>found\<close> is absent and \<open>match_options\<close> is empty, and
  \<open>validate\<close> in every other case; so a state with exactly one candidate and no
  resolved identity is routed to \<open>validate\<close>, not to \<open>data_collection\<close>.
\<close>

theorem should_validate_routes:
  "should_validate state =
     (case found state of
        Some m \<Rightarrow> ''data_collection''
      | None \<Rightarrow> (case match_options state of [] \<Rightarrow> ''suggest'' | c # cs \<Rightarrow> ''validate''))
   \<and> should_validate (state\<lparr>found := None, match_options := [c]\<rparr>) = ''validate''
   \<and> should_validate (state\<lparr>found := None, match_options := [c]\<rparr>) \<noteq> ''data_collection''"
  by (simp add: should_validate_def split: option.split list.split)

subsection \<open>C6: applying the human selection\<close>

text \<open>
  C6. With non-empty \<open>match_options\<close> and a \<open>human_response\<close> that parses as an
  integer \<open>i\<close>, \<open>1 \<le> i \<le> len(match_options)\<close>, the stage sets \<open>found\<close> to
  \<open>match_options[i-1]\<close> and \<open>cik10\<close> to that candidate's and returns the state. With
  a missing (absent or empty) response, a response that does not parse, no match
  options, or an index out of range, it raises and leaves \<open>found\<close> and \<open>cik10\<close> as
  they were. The hypothesis is Python's: \<open>int('')\<close> raises ValueError.
\<close>

theorem resolve_selection_contract:
  assumes "py_int [] = None"
  shows "(\<forall>response i.
            human_response state = Some response \<and> py_int response = Some i
            \<and> 1 \<le> i \<and> i \<le> int (length (match_options state))
          \<longrightarrow> resolve_company_selection py_int state =
               (Inr (), state\<lparr>current_node := ''resolve'',
                                found := Some (match_options state ! nat (i - 1)),
                                cik10 := match_cik10 (match_options state ! nat (i - 1))\<rparr>))
       \<and> ((human_response state = None \<or> human_response state = Some []
            \<or> (\<exists>response. human_response state = Some response \<and> py_int response = None)
            \<or> match_options state = []
            \<or> (\<exists>response i. human_response state = Some response \<and> py_int response = Some i
                  \<and> (i < 1 \<or> int (length (match_options state)) < i)))
          \<longrightarrow> (\<exists>e state'. resolve_company_selection py_int state = (Inl e, state')
                  \<and> found state' = found state \<and> cik10 state' = cik10 state))"
proof (intro conjI allI impI)
  fix response i
  assume h: "human_response state = Some response \<and> py_int response = Some i
             \<and> 1 \<le> i \<and> i \<le> int (length (match_options state))"
  then have "response \<noteq> []" using assms by auto
  moreover have "match_options state \<noteq> []" using h by auto
  ultimately show "resolve_company_selection py_int state =
               (Inr (), state\<lparr>current_node := ''resolve'',
                                found := Some (match_options state ! nat (i - 1)),
                                cik10 := match_cik10 (match_options state ! nat (i - 1))\<rparr>)"
    using h by (simp add: resolve_company_selection_def Let_def)
next
  assume "human_response state = None \<or> human_response state = Some []
            \<or> (\<exists>response. human_response state = Some response \<and> py_int response = None)
            \<or> match_options state = []
            \<or> (\<exists>response i. human_response state = Some response \<and> py_int response = Some i
                  \<and> (i < 1 \<or> int (length (match_options state)) < i))"
  then show "\<exists>e state'. resolve_company_selection py_int state = (Inl e, state')
                  \<and> found state' = found state \<and> cik10 state' = cik10 state"
    by (auto simp: resolve_company_selection_def Let_def split: option.splits)
qed

theorem resolve_selection_contract_witness:
  "resolve_company_selection demo_int (demo_state\<lparr>human_response := Some ''2''\<rparr>)
     = (Inr (), demo_state\<lparr>human_response := Some ''2'', current_node := ''resolve'',
                           found := Some (demo_match ''APLE'' ''0001418121''),
                           cik10 := Some ''0001418121''\<rparr>)
   \<and> (\<exists>e state'. resolve_company_selection demo_int (demo_state\<lparr>human_response := Some ''7''\<rparr>)
          = (Inl e, state') \<and> found state' = None \<and> cik10 state' = None)"
proof -
  have p: "demo_int [] = None" by (simp add: demo_int_def)
  have two: "demo_int ''2'' = Some 2" and seven: "demo_int ''7'' = Some 7"
    by (simp_all add: demo_int_def)
  show ?thesis
    using resolve_selection_contract
            [where py_int = demo_int and state = "demo_state\<lparr>human_response := Some ''2''\<rparr>"]
          resolve_selection_contract
            [where py_int = demo_int and state = "demo_state\<lparr>human_response := Some ''7''\<rparr>"]
    by (simp add: p two seven demo_state_def demo_match_def new_state_def)
qed

subsection \<open>C3: retry exactness\<close>

text \<open>
  The loop from attempt \<open>a\<close>, when the calls \<open>a, ..., m-1\<close> fail with retryable
  exceptions, each wait in between is computed and slept (\<open>d i\<close> after call \<open>i\<close>),
  and call \<open>m\<close> decides (it is not a retryable failure, or it is the last attempt):
  the result is the outcome of call \<open>m\<close>, exactly \<open>m + 1\<close> calls were made, and the
  waits \<open>d a, ..., d (m-1)\<close> were added.
\<close>

lemma retry_loop_run:
  assumes "a \<le> m" "int m < max_attempts"
    and "\<forall>i. a \<le> i \<and> i < m \<longrightarrow> retryable_failure exceptions (outcome_at func w i)"
    and "\<forall>i. a \<le> i \<and> i < m \<longrightarrow> py_pow backoff_factor i = Inr (d i) \<and> sleep (d i) = None"
    and "\<not> retryable_failure exceptions (outcome_at func w m) \<or> int m = max_attempts - 1"
  shows "retry_loop max_attempts backoff_factor exceptions py_pow sleep func a le
           (world_after func w a) sl
         = (outcome_at func w m, world_after func w (Suc m), sl @ map d [a..<m])"
  using assms
proof (induction "m - a" arbitrary: a le sl)
  case 0
  then have am: "a = m" by simp
  show ?case using 0(6) 0(3)
    unfolding am
    apply (subst retry_loop.simps)
    apply (auto simp: outcome_at_def retryable_failure_def split: prod.splits sum.splits)
    done
next
  case (Suc n)
  then have lt: "a < m" by simp
  have rf: "retryable_failure exceptions (outcome_at func w a)"
    using Suc.prems(3) lt by simp
  then obtain e w' where call: "func (world_after func w a) = (Inl e, w')" and ex: "exceptions e"
    by (cases "func (world_after func w a)")
       (auto simp: outcome_at_def retryable_failure_def split: sum.splits)
  have next_world: "world_after func w (Suc a) = w'"
    using call by simp
  have bounds: "int a < max_attempts" "int a \<noteq> max_attempts - 1"
    using lt Suc.prems(2) by auto
  have waited: "py_pow backoff_factor a = Inr (d a)" "sleep (d a) = None"
    using Suc.prems(4) lt by simp_all
  have IH: "retry_loop max_attempts backoff_factor exceptions py_pow sleep func (Suc a) (Some e)
              (world_after func w (Suc a)) (sl @ [d a])
            = (outcome_at func w m, world_after func w (Suc m),
               (sl @ [d a]) @ map d [Suc a..<m])"
    by (rule Suc.hyps(1)) (use Suc.hyps(2) Suc.prems lt in auto)
  have "retry_loop max_attempts backoff_factor exceptions py_pow sleep func a le
          (world_after func w a) sl
        = retry_loop max_attempts backoff_factor exceptions py_pow sleep func (Suc a) (Some e)
            w' (sl @ [d a])"
    by (subst retry_loop.simps) (simp add: call ex bounds waited)
  also have "\<dots> = (outcome_at func w m, world_after func w (Suc m),
               (sl @ [d a]) @ map d [Suc a..<m])"
    by (subst next_world[symmetric]) (rule IH)
  also have "(sl @ [d a]) @ map d [Suc a..<m] = sl @ map d [a..<m]"
    using lt by (simp add: upt_conv_Cons)
  finally show ?case .
qed

lemma retry_run:
  assumes "int m < max_attempts"
    and "\<forall>i<m. retryable_failure exceptions (outcome_at func w i)"
    and "waits_done py_pow sleep backoff_factor m ds"
    and "\<not> retryable_failure exceptions (outcome_at func w m) \<or> int m = max_attempts - 1"
  shows "retry max_attempts backoff_factor exceptions py_pow sleep func w
         = (outcome_at func w m, world_after func w (Suc m), ds)"
proof -
  from assms(3) have len: "length ds = m"
    and each: "\<forall>i. 0 \<le> i \<and> i < m \<longrightarrow>
                 py_pow backoff_factor i = Inr (ds ! i) \<and> sleep (ds ! i) = None"
    by (simp_all add: waits_done_def list_all_iff)
  from assms(2) have fails:
    "\<forall>i. 0 \<le> i \<and> i < m \<longrightarrow> retryable_failure exceptions (outcome_at func w i)"
    by simp
  have "map (\<lambda>i. ds ! i) [0..<m] = ds"
    unfolding len [symmetric] by (rule map_nth)
  with retry_loop_run [of 0 m max_attempts exceptions func w py_pow backoff_factor
                          "\<lambda>i. ds ! i" sleep None "[]", OF _ assms(1) fails each assms(4)]
  show ?thesis by (simp add: retry_def)
qed

text \<open>
  Where Python's power is exact and the sleep takes every non-negative duration, the
  waits of a non-negative \<open>backoff_factor\<close> are its powers.
\<close>

lemma waits_done_exact:
  assumes "0 \<le> backoff_factor"
    and "\<forall>i<k. py_pow backoff_factor i = Inr (backoff_factor ^ i)"
    and "\<forall>x. 0 \<le> x \<longrightarrow> sleep x = None"
  shows "waits_done py_pow sleep backoff_factor k (map (\<lambda>i. backoff_factor ^ i) [0..<k])"
  using assms by (simp add: waits_done_def list_all_iff)

lemma world_after_flaky: "world_after (flaky k e1 final) 0 n = n"
  by (induction n) (simp_all add: flaky_def)

lemma outcome_at_flaky:
  "outcome_at (flaky k e1 final) 0 n = (if n < k then Inl e1 else final)"
  by (simp add: outcome_at_def world_after_flaky flaky_def)

text \<open>
  C3. For a callable wrapped by \<open>retry(max_attempts, backoff_factor, exceptions)\<close>,
  when each wait the wrapper makes is computed and slept without an error of its own
  (\<open>waits_done\<close>: the durations \<open>ds\<close> are \<open>backoff_factor ** 0, ...\<close> as Python
  computes them):
  \<^item> if its first \<open>k < max_attempts\<close> calls fail with retryable exceptions and call
    \<open>k\<close> returns \<open>v\<close>, the wrapped call returns \<open>v\<close> after exactly \<open>k + 1\<close> calls and
    exactly the \<open>k\<close> waits \<open>backoff_factor ** 0, ..., backoff_factor ** (k-1)\<close>;
  \<^item> if all \<open>max_attempts = n + 1\<close> calls fail with retryable exceptions, the
    exception \<open>e\<close> of the last call is re-raised as it is, after \<open>n\<close> waits;
  \<^item> if call \<open>j\<close> raises an exception that is not retryable, that exception
    propagates at once: no call and no wait follows it.
\<close>

theorem retry_exactness:
  "(\<forall>k v ds. int k < max_attempts
          \<and> (\<forall>i<k. retryable_failure exceptions (outcome_at func w i))
          \<and> outcome_at func w k = Inr v
          \<and> waits_done py_pow sleep backoff_factor k ds
        \<longrightarrow> retry max_attempts backoff_factor exceptions py_pow sleep func w
            = (Inr v, world_after func w (Suc k), ds))
   \<and> (\<forall>n e ds. int (Suc n) = max_attempts
          \<and> (\<forall>i<Suc n. retryable_failure exceptions (outcome_at func w i))
          \<and> outcome_at func w n = Inl e
          \<and> waits_done py_pow sleep backoff_factor n ds
        \<longrightarrow> retry max_attempts backoff_factor exceptions py_pow sleep func w
            = (Inl e, world_after func w (Suc n), ds))
   \<and> (\<forall>j e ds. int j < max_attempts
          \<and> (\<forall>i<j. retryable_failure exceptions (outcome_at func w i))
          \<and> outcome_at func w j = Inl e \<and> \<not> exceptions e
          \<and> waits_done py_pow sleep backoff_factor j ds
        \<longrightarrow> retry max_attempts backoff_factor exceptions py_pow sleep func w
            = (Inl e, world_after func w (Suc j), ds))"
proof (intro conjI allI impI)
  fix k v ds
  assume h: "int k < max_attempts
          \<and> (\<forall>i<k. retryable_failure exceptions (outcome_at func w i))
          \<and> outcome_at func w k = Inr v
          \<and> waits_done py_pow sleep backoff_factor k ds"
  then have "\<not> retryable_failure exceptions (outcome_at func w k)"
    by (simp add: retryable_failure_def)
  with h show "retry max_attempts backoff_factor exceptions py_pow sleep func w
            = (Inr v, world_after func w (Suc k), ds)"
    using retry_run [of k max_attempts exceptions func w py_pow sleep backoff_factor ds]
    by simp
next
  fix n e ds
  assume h: "int (Suc n) = max_attempts
          \<and> (\<forall>i<Suc n. retryable_failure exceptions (outcome_at func w i))
          \<and> outcome_at func w n = Inl e
          \<and> waits_done py_pow sleep backoff_factor n ds"
  then have "int n < max_attempts" "int n = max_attempts - 1" by auto
  with h show "retry max_attempts backoff_factor exceptions py_pow sleep func w
            = (Inl e, world_after func w (Suc n), ds)"
    using retry_run [of n max_attempts exceptions func w py_pow sleep backoff_factor ds]
    by simp
next
  fix j e ds
  assume h: "int j < max_attempts
          \<and> (\<forall>i<j. retryable_failure exceptions (outcome_at func w i))
          \<and> outcome_at func w j = Inl e \<and> \<not> exceptions e
          \<and> waits_done py_pow sleep backoff_factor j ds"
  then have "\<not> retryable_failure exceptions (outcome_at func w j)"
    by (simp add: retryable_failure_def)
  with h show "retry max_attempts backoff_factor exceptions py_pow sleep func w
            = (Inl e, world_after func w (Suc j), ds)"
    using retry_run [of j max_attempts exceptions func w py_pow sleep backoff_factor ds]
    by simp
qed

theorem retry_exactness_witness:
  "retry 3 2 is_ClientError exact_power time_sleep
        (flaky 2 (Exn ClientError ''reset'') (Inr ''ok'')) 0
     = (Inr ''ok'', 3, [1, 2])
   \<and> retry 3 2 is_ClientError exact_power time_sleep
        (flaky 5 (Exn ClientError ''reset'') (Inr ''ok'')) 0
     = (Inl (Exn ClientError ''reset''), 3, [1, 2])
   \<and> retry 3 2 is_ClientError exact_power time_sleep
        (flaky 1 (Exn ClientError ''reset'') (Inl (Exn ValueError ''CIK not set''))) 0
     = (Inl (Exn ValueError ''CIK not set''), 2, [1])"
proof -
  let ?e = "Exn ClientError ''reset''"
  have r: "retryable_failure is_ClientError (Inl ?e)"
    by (simp add: retryable_failure_def is_ClientError_def)
  have nr: "\<not> is_ClientError (Exn ValueError ''CIK not set'')"
    by (simp add: is_ClientError_def)
  have w2: "waits_done exact_power time_sleep 2 2 [1, 2]"
    and w1: "waits_done exact_power time_sleep 2 (Suc 0) [1]"
    by (simp_all add: waits_done_def exact_power_def time_sleep_def numeral_2_eq_2)
  have a: "retry 3 2 is_ClientError exact_power time_sleep (flaky 2 ?e (Inr ''ok'')) 0
             = (Inr ''ok'', 3, [1, 2])"
    using retry_exactness [where max_attempts = 3 and exceptions = is_ClientError
              and func = "flaky 2 ?e (Inr ''ok'')" and w = 0 and backoff_factor = 2
              and py_pow = exact_power and sleep = time_sleep,
            THEN conjunct1, rule_format, of 2 "''ok''" "[1, 2]"]
    by (simp add: outcome_at_flaky world_after_flaky r w2 del: world_after.simps)
  have b: "retry 3 2 is_ClientError exact_power time_sleep (flaky 5 ?e (Inr ''ok'')) 0
             = (Inl ?e, 3, [1, 2])"
    using retry_exactness [where max_attempts = 3 and exceptions = is_ClientError
              and func = "flaky 5 ?e (Inr ''ok'')" and w = 0 and backoff_factor = 2
              and py_pow = exact_power and sleep = time_sleep,
            THEN conjunct2, THEN conjunct1, rule_format, of 2 ?e "[1, 2]"]
    by (simp add: outcome_at_flaky world_after_flaky r w2 del: world_after.simps)
  have c: "retry 3 2 is_ClientError exact_power time_sleep
             (flaky 1 ?e (Inl (Exn ValueError ''CIK not set''))) 0
             = (Inl (Exn ValueError ''CIK not set''), 2, [1])"
    using retry_exactness [where max_attempts = 3 and exceptions = is_ClientError
              and func = "flaky 1 ?e (Inl (Exn ValueError ''CIK not set''))" and w = 0
              and backoff_factor = 2 and py_pow = exact_power and sleep = time_sleep,
            THEN conjunct2, THEN conjunct2, rule_format,
            of 1 "Exn ValueError ''CIK not set''" "[1]"]
    by (simp add: outcome_at_flaky world_after_flaky r nr w1 del: world_after.simps)
  from a b c show ?thesis by simp
qed

text \<open>
  A wait that fails. With \<open>backoff_factor = -2\<close> the second wait is
  \<open>time.sleep(-2.0)\<close>, which raises ValueError: the wrapped call ends with that
  exception after two calls and one wait.
\<close>

lemma retry_negative_backoff:
  "retry 3 (- 2) is_ClientError exact_power time_sleep
        (flaky 2 (Exn ClientError ''reset'') (Inr ''ok'')) 0
     = (Inl (Exn ValueError ''sleep length must be non-negative''), 2, [1])"
  unfolding retry_def
  by (simp add: retry_loop.simps flaky_def is_ClientError_def exact_power_def time_sleep_def)

subsection \<open>C4: the validation gate\<close>




lemma validate_body_not_built:
  assumes "match_options state = top_match # others" "build calls = Some e"
  shows "validate_body upper build llm (state, calls)
           = (Inl e, state\<lparr>current_node := ''validate_match''\<rparr>, Suc calls)"
  using assms by (simp add: validate_body_def Let_def)



text \<open>
  When building the chain raises an \<open>Exception\<close> at both calls of the body, the
  stage raises the second one after its single wait; it has written \<open>current_node\<close>
  only.
\<close>

lemma validate_company_match_not_built:
  assumes "match_options state = top_match # others" "py_pow 2 0 = Inr 1"
      and "build 0 = Some e0" "is_Exception e0" "build 1 = Some e1" "is_Exception e1"
  shows "validate_company_match upper py_pow build llm state
           = (Inl e1, state\<lparr>current_node := ''validate_match''\<rparr>, [1])"
proof -
  let ?body = "validate_body upper build llm"
  let ?entered = "state\<lparr>current_node := ''validate_match''\<rparr>"
  have opts': "match_options ?entered = top_match # others"
    by (simp add: assms(1))
  have c0: "?body (state, 0) = (Inl e0, ?entered, Suc 0)"
    using validate_body_not_built
            [where state = state and build = build and calls = 0 and e = e0
               and upper = upper and llm = llm]
          assms(1,3)
    by simp
  have c1: "?body (?entered, Suc 0) = (Inl e1, ?entered, Suc (Suc 0))"
    using validate_body_not_built
            [where state = ?entered and build = build and calls = "Suc 0" and e = e1
               and upper = upper and llm = llm]
          opts' assms(5)
    by simp
  have "retry 2 2 is_Exception py_pow asyncio_sleep ?body (state, 0)
          = (outcome_at ?body (state, 0) 1, world_after ?body (state, 0) (Suc 1), [1])"
    by (rule retry_run)
       (use c0 assms(2,4) in \<open>simp_all add: outcome_at_def retryable_failure_def
                                             waits_done_def asyncio_sleep_def\<close>)
  then show ?thesis
    using c0 c1 by (simp add: validate_company_match_def outcome_at_def)
qed

subsection \<open>C7: the fallback chain\<close>

lemma execute_loop_fall_through:
  "all_fall_through truthy pre args w \<Longrightarrow>
   execute_loop truthy truthy_exn (pre @ rest) args last_error w
     = execute_loop truthy truthy_exn rest args (last_error_after pre args last_error w)
         (invoke_all pre args w)"
proof (induction pre arbitrary: last_error w)
  case Nil
  then show ?case by simp
next
  case (Cons s pre)
  obtain n f where s: "s = (n, f)" by (cases s)
  show ?case
  proof (cases "f args w")
    case (Pair r w')
    with Cons.prems s have ft: "all_fall_through truthy pre args w'"
      by (auto split: sum.splits)
    show ?thesis
      using Cons.prems Pair s Cons.IH [OF ft]
      by (cases r) auto
  qed
qed

lemma all_empty_fall_through:
  "all_empty truthy pre args w \<Longrightarrow> all_fall_through truthy pre args w"
  by (induction pre arbitrary: w) (auto split: prod.splits sum.splits)

lemma all_raise_fall_through:
  "all_raise pre args w \<Longrightarrow> all_fall_through truthy pre args w"
  by (induction pre arbitrary: w) (auto split: prod.splits sum.splits)

lemma all_empty_last_error:
  "all_empty truthy pre args w \<Longrightarrow> last_error_after pre args last_error w = last_error"
  by (induction pre arbitrary: w) (auto split: prod.splits sum.splits)

text \<open>
  C7. \<open>add_strategy\<close> appends, so the list is in registration order. On a non-empty
  list, \<open>execute\<close> invokes the strategies in that order:
  \<^item> when the strategies before \<open>(n, func)\<close> all fell through (each returned an
    empty result or raised) and \<open>func\<close> returns a truthy result \<open>r\<close>, \<open>execute\<close>
    returns \<open>r\<close> and the world is the one \<open>func\<close> left: no later strategy ran;
  \<^item> when every strategy raises, the exception of the last one is re-raised,
    given that the exception object is truthy, as the instances of the built-in
    exception classes are;
  \<^item> when every strategy returns an empty result without raising, \<open>execute\<close>
    returns \<open>None\<close> and raises nothing.
\<close>

theorem fallback_chain_execute:
  "strategies (add_strategy n2 f2 (add_strategy n1 f1 chain))
     = strategies chain @ [(n1, f1), (n2, f2)]
   \<and> (\<forall>pre n func post r w'.
         strategies chain = pre @ (n, func) # post
         \<and> all_fall_through truthy pre args w
         \<and> func args (invoke_all pre args w) = (Inr r, w') \<and> truthy r
       \<longrightarrow> execute truthy truthy_exn chain args w = (Inr (Some r), w'))
   \<and> (\<forall>pre n func e w'.
         strategies chain = pre @ [(n, func)]
         \<and> all_raise pre args w
         \<and> func args (invoke_all pre args w) = (Inl e, w') \<and> is_Exception e
         \<and> truthy_exn e
       \<longrightarrow> execute truthy truthy_exn chain args w = (Inl e, w'))
   \<and> (strategies chain \<noteq> [] \<and> all_empty truthy (strategies chain) args w
       \<longrightarrow> execute truthy truthy_exn chain args w = (Inr None, invoke_all (strategies chain) args w))"
proof (intro conjI allI impI)
  show "strategies (add_strategy n2 f2 (add_strategy n1 f1 chain))
          = strategies chain @ [(n1, f1), (n2, f2)]"
    by (simp add: add_strategy_def)
next
  fix pre n func post r w'
  assume h: "strategies chain = pre @ (n, func) # post
         \<and> all_fall_through truthy pre args w
         \<and> func args (invoke_all pre args w) = (Inr r, w') \<and> truthy r"
  then have "execute truthy truthy_exn chain args w
      = execute_loop truthy truthy_exn ((n, func) # post) args (last_error_after pre args None w)
          (invoke_all pre args w)"
    by (simp add: execute_def execute_loop_fall_through)
  also have "\<dots> = (Inr (Some r), w')"
    using h by simp
  finally show "execute truthy truthy_exn chain args w = (Inr (Some r), w')" .
next
  fix pre n func e w'
  assume h: "strategies chain = pre @ [(n, func)]
         \<and> all_raise pre args w
         \<and> func args (invoke_all pre args w) = (Inl e, w') \<and> is_Exception e
         \<and> truthy_exn e"
  then have "execute truthy truthy_exn chain args w
      = execute_loop truthy truthy_exn [(n, func)] args (last_error_after pre args None w)
          (invoke_all pre args w)"
    by (simp add: execute_def execute_loop_fall_through all_raise_fall_through)
  also have "\<dots> = (Inl e, w')"
    using h by simp
  finally show "execute truthy truthy_exn chain args w = (Inl e, w')" .
next
  assume h: "strategies chain \<noteq> [] \<and> all_empty truthy (strategies chain) args w"
  then have "execute truthy truthy_exn chain args w
      = execute_loop truthy truthy_exn [] args (last_error_after (strategies chain) args None w)
          (invoke_all (strategies chain) args w)"
    using execute_loop_fall_through [of truthy "strategies chain" args w truthy_exn "[]" None]
    by (simp add: execute_def all_empty_fall_through)
  also have "\<dots> = (Inr None, invoke_all (strategies chain) args w)"
    using h all_empty_last_error [of truthy "strategies chain" args w None] by simp
  finally show "execute truthy truthy_exn chain args w
      = (Inr None, invoke_all (strategies chain) args w)" .
qed

theorem fallback_chain_execute_witness:
  "execute nonempty standard_exception
     (demo_chain [(''Tavily'', Inr [''r1'']), (''DuckDuckGo'', Inr [''r2'']), (''Third'', Inr [''r3''])])
     ''query'' [] = (Inr (Some [''r1'']), [''Tavily''])
   \<and> execute nonempty standard_exception
     (demo_chain [(''Tavily'', Inr []), (''DuckDuckGo'', Inr [''r2'']), (''Third'', Inr [''r3''])])
     ''query'' [] = (Inr (Some [''r2'']), [''Tavily'', ''DuckDuckGo''])
   \<and> execute nonempty standard_exception
     (demo_chain [(''Tavily'', Inl (Exn ClientError ''e1'')), (''DuckDuckGo'', Inl (Exn ValueError ''e2''))])
     ''query'' [] = (Inl (Exn ValueError ''e2''), [''Tavily'', ''DuckDuckGo''])
   \<and> execute nonempty standard_exception
     (demo_chain [(''Tavily'', Inr []), (''DuckDuckGo'', Inr [])])
     ''query'' [] = (Inr None, [''Tavily'', ''DuckDuckGo''])"
proof -
  let ?c1 = "demo_chain [(''Tavily'', Inr [''r1'']), (''DuckDuckGo'', Inr [''r2'']), (''Third'', Inr [''r3''])]"
  let ?c2 = "demo_chain [(''Tavily'', Inr []), (''DuckDuckGo'', Inr [''r2'']), (''Third'', Inr [''r3''])]"
  let ?c3 = "demo_chain [(''Tavily'', Inl (Exn ClientError ''e1'')), (''DuckDuckGo'', Inl (Exn ValueError ''e2''))]"
  let ?c4 = "demo_chain [(''Tavily'', Inr []), (''DuckDuckGo'', Inr [])]"
  have a: "execute nonempty standard_exception ?c1 ''query'' [] = (Inr (Some [''r1'']), [''Tavily''])"
    using fallback_chain_execute [of _ _ _ _ ?c1 nonempty "''query''" "[]" standard_exception,
            THEN conjunct2, THEN conjunct1, rule_format,
            of "[]" "''Tavily''" "logged ''Tavily'' (Inr [''r1''])"
               "[(''DuckDuckGo'', logged ''DuckDuckGo'' (Inr [''r2''])), (''Third'', logged ''Third'' (Inr [''r3'']))]"
               "[''r1'']" "[''Tavily'']"]
    by (simp add: demo_chain_def add_strategy_def FallbackChain_init_def logged_def nonempty_def)
  have b: "execute nonempty standard_exception ?c2 ''query'' [] = (Inr (Some [''r2'']), [''Tavily'', ''DuckDuckGo''])"
    using fallback_chain_execute [of _ _ _ _ ?c2 nonempty "''query''" "[]" standard_exception,
            THEN conjunct2, THEN conjunct1, rule_format,
            of "[(''Tavily'', logged ''Tavily'' (Inr []))]" "''DuckDuckGo''" "logged ''DuckDuckGo'' (Inr [''r2''])"
               "[(''Third'', logged ''Third'' (Inr [''r3'']))]"
               "[''r2'']" "[''Tavily'', ''DuckDuckGo'']"]
    by (simp add: demo_chain_def add_strategy_def FallbackChain_init_def logged_def nonempty_def)
  have c: "execute nonempty standard_exception ?c3 ''query'' [] = (Inl (Exn ValueError ''e2''), [''Tavily'', ''DuckDuckGo''])"
    using fallback_chain_execute [of _ _ _ _ ?c3 nonempty "''query''" "[]" standard_exception,
            THEN conjunct2, THEN conjunct2, THEN conjunct1, rule_format,
            of "[(''Tavily'', logged ''Tavily'' (Inl (Exn ClientError ''e1'')))]" "''DuckDuckGo''"
               "logged ''DuckDuckGo'' (Inl (Exn ValueError ''e2''))"
               "Exn ValueError ''e2''" "[''Tavily'', ''DuckDuckGo'']"]
    by (simp add: demo_chain_def add_strategy_def FallbackChain_init_def logged_def is_Exception_def
                  standard_exception_def)
  have d: "execute nonempty standard_exception ?c4 ''query'' [] = (Inr None, [''Tavily'', ''DuckDuckGo''])"
    using fallback_chain_execute [of _ _ _ _ ?c4 nonempty "''query''" "[]" standard_exception,
            THEN conjunct2, THEN conjunct2, THEN conjunct2]
    by (simp add: demo_chain_def add_strategy_def FallbackChain_init_def logged_def nonempty_def)
  from a b c d show ?thesis by simp
qed

text \<open>
  When every strategy raises and the exception object of the last one is falsy, the
  truth test drops it: \<open>execute\<close> returns \<open>None\<close>.
\<close>

lemma execute_falsy_exception:
  assumes "strategies chain = pre @ [(n, func)]" "all_raise pre args w"
      and "func args (invoke_all pre args w) = (Inl e, w')" "is_Exception e" "\<not> truthy_exn e"
  shows "execute truthy truthy_exn chain args w = (Inr None, w')"
  using assms
  by (simp add: execute_def execute_loop_fall_through all_raise_fall_through)

subsection \<open>C10: health counters of ServiceFallback\<close>

lemma call_loop_changes:
  assumes "call_loop truthy svcs args fc sc w = (res, fc', sc', w')"
      and "fc' n \<noteq> fc n \<or> sc' n \<noteq> sc n"
  shows "(n, Ev_success) \<in> set (call_trace truthy svcs args fc sc w)
       \<or> (n, Ev_raised) \<in> set (call_trace truthy svcs args fc sc w)"
  using assms
proof (induction svcs arbitrary: fc sc w)
  case Nil
  then show ?case by simp
next
  case (Cons service rest)
  let ?name = "svc_name service"
  show ?case
  proof (cases "fc ?name")
    case None
    with Cons.prems show ?thesis by simp
  next
    case (Some failures)
    show ?thesis
    proof (cases "failures > 3")
      case True
      with Some Cons.prems Cons.IH [of fc sc w] show ?thesis by simp
    next
      case False
      obtain r w1 where f: "svc_func service args w = (r, w1)"
        by (cases "svc_func service args w")
      let ?fc1 = "fc(?name \<mapsto> failures + 1)"
      have failed_step:
        "(n, Ev_success) \<in> set ((?name, Ev_raised) # call_trace truthy rest args ?fc1 sc w1)
         \<or> (n, Ev_raised) \<in> set ((?name, Ev_raised) # call_trace truthy rest args ?fc1 sc w1)"
        if run: "call_loop truthy rest args ?fc1 sc w1 = (res, fc', sc', w')"
      proof (cases "n = ?name")
        case True
        then show ?thesis by simp
      next
        case neq: False
        then have "fc' n \<noteq> ?fc1 n \<or> sc' n \<noteq> sc n" using Cons.prems(2) by simp
        from Cons.IH [OF run this] show ?thesis
          by (metis list.set_intros(2))
      qed
      show ?thesis
      proof (cases r)
        case (Inl e)
        show ?thesis
        proof (cases "is_Exception e")
          case True
          with Some False f Inl Cons.prems
          have run: "call_loop truthy rest args ?fc1 sc w1 = (res, fc', sc', w')"
            by simp
          have tr: "call_trace truthy (service # rest) args fc sc w
                    = (?name, Ev_raised) # call_trace truthy rest args ?fc1 sc w1"
            using Some False f Inl True by simp
          show ?thesis unfolding tr by (rule failed_step [OF run])
        next
          case nex: False
          with Some False f Inl Cons.prems show ?thesis by simp
        qed
      next
        case (Inr result)
        show ?thesis
        proof (cases "truthy result")
          case tr: True
          show ?thesis
          proof (cases "sc ?name")
            case sNone: None
            with Some False f Inr tr Cons.prems
            have run: "call_loop truthy rest args ?fc1 sc w1 = (res, fc', sc', w')"
              by simp
            have trc: "call_trace truthy (service # rest) args fc sc w
                      = (?name, Ev_raised) # call_trace truthy rest args ?fc1 sc w1"
              using Some False f Inr tr sNone by simp
            show ?thesis unfolding trc by (rule failed_step [OF run])
          next
            case sSome: (Some successes)
            have trc: "call_trace truthy (service # rest) args fc sc w = [(?name, Ev_success)]"
              using Some False f Inr tr sSome by simp
            have "fc' = fc(?name \<mapsto> max 0 (failures - 1))"
                 "sc' = sc(?name \<mapsto> successes + 1)"
              using Some False f Inr tr sSome Cons.prems(1) by simp_all
            then have "n = ?name" using Cons.prems(2) by (auto split: if_splits)
            then show ?thesis unfolding trc by simp
          qed
        next
          case fl: False
          with Some False f Inr Cons.prems
          have run: "call_loop truthy rest args fc sc w1 = (res, fc', sc', w')"
            by simp
          have trc: "call_trace truthy (service # rest) args fc sc w
                    = (?name, Ev_empty) # call_trace truthy rest args fc sc w1"
            using Some False f Inr fl by simp
          from Cons.IH [OF run Cons.prems(2)] show ?thesis
            unfolding trc by (metis list.set_intros(2))
        qed
      qed
    qed
  qed
qed

lemma register_sorted:
  "sorted (map priority (services (register n f p sf)))"
  by (simp add: register_def)

text \<open>
  C10. In the loop of \<open>ServiceFallback.call\<close>, for a service that is tried (its
  failure counter is at most 3):
  \<^item> an empty result without an exception leaves both counter dictionaries as they
    are, and the loop goes on with the next service of the (priority-sorted) list;
  \<^item> a truthy result adds 1 to its success counter, takes 1 off its failure counter
    (not below 0) and is returned;
  \<^item> an exception adds 1 to its failure counter, and the loop goes on.
  And a counter of a name \<open>n\<close> differs after \<open>call\<close> only if a service of that name
  returned a truthy result or raised inside the \<open>try\<close> block during the call.
\<close>

theorem service_fallback_counters:
  "(\<forall>service rest failures r w1.
      fc (svc_name service) = Some failures \<and> \<not> 3 < failures
      \<and> svc_func service args w = (Inr r, w1) \<and> \<not> truthy r
    \<longrightarrow> call_loop truthy (service # rest) args fc sc w
        = call_loop truthy rest args fc sc w1)
   \<and> (\<forall>service rest failures successes r w1.
      fc (svc_name service) = Some failures \<and> \<not> 3 < failures
      \<and> sc (svc_name service) = Some successes
      \<and> svc_func service args w = (Inr r, w1) \<and> truthy r
    \<longrightarrow> call_loop truthy (service # rest) args fc sc w
        = (Inr (Some r), fc(svc_name service \<mapsto> max 0 (failures - 1)),
           sc(svc_name service \<mapsto> successes + 1), w1))
   \<and> (\<forall>service rest failures e w1.
      fc (svc_name service) = Some failures \<and> \<not> 3 < failures
      \<and> svc_func service args w = (Inl e, w1) \<and> is_Exception e
    \<longrightarrow> call_loop truthy (service # rest) args fc sc w
        = call_loop truthy rest args (fc(svc_name service \<mapsto> failures + 1)) sc w1)
   \<and> (\<forall>sf res sf' w' n.
      call truthy sf args w = (res, sf', w')
      \<and> (failure_counts sf' n \<noteq> failure_counts sf n
         \<or> success_counts sf' n \<noteq> success_counts sf n)
    \<longrightarrow> (n, Ev_success) \<in> set (call_trace truthy (services sf) args
                                  (failure_counts sf) (success_counts sf) w)
      \<or> (n, Ev_raised) \<in> set (call_trace truthy (services sf) args
                                  (failure_counts sf) (success_counts sf) w))"
proof (intro conjI allI impI)
  fix sf :: "('a, 'b, 'c) ServiceFallback" and res sf' w' n
  assume h: "call truthy sf args w = (res, sf', w')
      \<and> (failure_counts sf' n \<noteq> failure_counts sf n
         \<or> success_counts sf' n \<noteq> success_counts sf n)"
  obtain r fc' sc' w1 where run:
    "call_loop truthy (services sf) args (failure_counts sf) (success_counts sf) w
       = (r, fc', sc', w1)"
    by (cases "call_loop truthy (services sf) args (failure_counts sf) (success_counts sf) w")
  with h have "sf' = sf\<lparr>failure_counts := fc', success_counts := sc'\<rparr>"
    by (simp add: call_def)
  with h have "fc' n \<noteq> failure_counts sf n \<or> sc' n \<noteq> success_counts sf n"
    by auto
  from call_loop_changes [OF run this]
  show "(n, Ev_success) \<in> set (call_trace truthy (services sf) args
                                  (failure_counts sf) (success_counts sf) w)
      \<or> (n, Ev_raised) \<in> set (call_trace truthy (services sf) args
                                  (failure_counts sf) (success_counts sf) w)" .
qed simp_all

lemma demo_services_sorted:
  "services demo_services =
     [\<lparr>svc_name = ''down'', svc_func = logged ''down'' (Inl (Exn ClientError ''refused'')), priority = 0\<rparr>,
      \<lparr>svc_name = ''primary'', svc_func = logged ''primary'' (Inr []), priority = 1\<rparr>,
      \<lparr>svc_name = ''backup'', svc_func = logged ''backup'' (Inr [''hit'']), priority = 2\<rparr>]"
  by (simp add: demo_services_def register_def ServiceFallback_init_def)

lemma demo_services_counts:
  "failure_counts demo_services = [''backup'' \<mapsto> 0, ''down'' \<mapsto> 0, ''primary'' \<mapsto> 0]"
  "success_counts demo_services = [''backup'' \<mapsto> 0, ''down'' \<mapsto> 0, ''primary'' \<mapsto> 0]"
  by (simp_all add: demo_services_def register_def ServiceFallback_init_def)

theorem service_fallback_counters_witness:
  "\<exists>sf'. call nonempty demo_services ''query'' []
            = (Inr (Some [''hit'']), sf', [''down'', ''primary'', ''backup''])
         \<and> failure_counts sf' ''primary'' = Some 0 \<and> success_counts sf' ''primary'' = Some 0
         \<and> failure_counts sf' ''down'' = Some 1
         \<and> success_counts sf' ''backup'' = Some 1"
proof -
  obtain res sf' w' where c: "call nonempty demo_services ''query'' [] = (res, sf', w')"
    by (cases "call nonempty demo_services ''query'' []")
  have tr: "call_trace nonempty (services demo_services) ''query''
              (failure_counts demo_services) (success_counts demo_services) []
            = [(''down'', Ev_raised), (''primary'', Ev_empty), (''backup'', Ev_success)]"
    by (simp add: demo_services_sorted demo_services_counts logged_def nonempty_def
                  is_Exception_def)
  have "\<not> (failure_counts sf' ''primary'' \<noteq> failure_counts demo_services ''primary''
          \<or> success_counts sf' ''primary'' \<noteq> success_counts demo_services ''primary'')"
    using service_fallback_counters [where truthy = nonempty and args = "''query''" and w = "[]",
            THEN conjunct2, THEN conjunct2, THEN conjunct2, rule_format,
            of demo_services res sf' w' "''primary''"] c
    by (auto simp: tr)
  then have unchanged: "failure_counts sf' ''primary'' = Some 0"
                       "success_counts sf' ''primary'' = Some 0"
    by (simp_all add: demo_services_counts)
  have "call nonempty demo_services ''query'' []
          = (Inr (Some [''hit'']),
             demo_services\<lparr>failure_counts := (failure_counts demo_services)(''down'' \<mapsto> 1, ''backup'' \<mapsto> 0),
                            success_counts := (success_counts demo_services)(''backup'' \<mapsto> 1)\<rparr>,
             [''down'', ''primary'', ''backup''])"
    by (simp add: call_def demo_services_sorted demo_services_counts logged_def nonempty_def
                  is_Exception_def)
  with c unchanged show ?thesis by auto
qed

subsection \<open>C8: the TTL cache\<close>

lemma paths_differ: "get_path isalnum self k \<noteq> get_meta_path isalnum self k"
proof
  assume "get_path isalnum self k = get_meta_path isalnum self k"
  then have "length (get_path isalnum self k) = length (get_meta_path isalnum self k)"
    by simp
  then show False
    by (simp add: get_path_def get_meta_path_def split: if_splits)
qed

text \<open>
  The round trip for the \<open>ttl\<close> that \<open>set\<close> records (\<open>ttl or self.ttl\<close>): \<open>get\<close>
  returns the value while the elapsed time is at most that, and afterwards returns
  \<open>None\<close> and removes both files.
\<close>

lemma cache_round_trip:
  shows "t1 - t0 \<le> real_of_int (ttl_or ttl_arg (self_ttl self))
           \<Longrightarrow> FileCache_get isalnum self k t1 (FileCache_set isalnum self k v ttl_arg t0 fs)
               = (Some v, FileCache_set isalnum self k v ttl_arg t0 fs)"
    and "real_of_int (ttl_or ttl_arg (self_ttl self)) < t1 - t0
           \<Longrightarrow> FileCache_get isalnum self k t1 (FileCache_set isalnum self k v ttl_arg t0 fs)
               = (None, ((FileCache_set isalnum self k v ttl_arg t0 fs)
                           (get_path isalnum self k := None))
                          (get_meta_path isalnum self k := None))"
  using paths_differ [of isalnum self k]
  by (auto simp: FileCache_get_def FileCache_set_def FileCache_delete_def Let_def)

text \<open>
  C8, at \<open>ttl = 0\<close>. A cache whose default is 3600 stores a value with
  \<open>set(key, v, ttl=0)\<close> at time 1000: \<open>0 or self.ttl\<close> is 3600, so the metadata
  records 3600. At time 1001 the elapsed time (1) exceeds the \<open>ttl\<close> that was passed
  (0), yet \<open>get\<close> returns the value and removes nothing.
\<close>

theorem FileCache_ttl_zero_keeps_entry:
  "FileCache_get isalnum (FileCache_init ''cache'' ''default'' 3600) ''k'' 1001
     (FileCache_set isalnum (FileCache_init ''cache'' ''default'' 3600) ''k'' v (Some 0) 1000 Map.empty)
   = (Some v,
      FileCache_set isalnum (FileCache_init ''cache'' ''default'' 3600) ''k'' v (Some 0) 1000 Map.empty)"
  using cache_round_trip(1)
          [where ?t1.0 = 1001 and ?t0.0 = 1000 and ttl_arg = "Some 0"
             and self = "FileCache_init ''cache'' ''default'' 3600" and isalnum = isalnum
             and k = "''k''" and v = v and fs = Map.empty]
  by (simp add: ttl_or_def FileCache_init_def)

subsection \<open>C9: rate limiter spacing\<close>

lemma limited_call_spacing:
  assumes "timing_ok t"
  shows "last_called (snd (limited_call mi func t s)) \<ge> last_called s + mi"
    and "last_called (snd (limited_call mi func t s)) \<ge> clock s"
    and "clock (snd (limited_call mi func t s)) \<ge> last_called (snd (limited_call mi func t s))"
  using assms
  by (auto simp: limited_call_def timing_ok_def Let_def split: prod.splits)

lemma issue_calls_last:
  assumes "list_all timing_ok ts" "ts \<noteq> []"
  shows "last_called (issue_calls mi func ts s) \<ge> clock s + (real (length ts) - 1) * mi
       \<and> clock (issue_calls mi func ts s) \<ge> last_called (issue_calls mi func ts s)"
  using assms
proof (induction ts rule: rev_induct)
  case Nil
  then show ?case by simp
next
  case (snoc t ts)
  let ?s1 = "issue_calls mi func ts s"
  have step: "issue_calls mi func (ts @ [t]) s = snd (limited_call mi func t ?s1)"
    by (simp add: issue_calls_def)
  have ok: "timing_ok t" using snoc.prems by simp
  show ?case
  proof (cases "ts = []")
    case True
    then have "?s1 = s" by (simp add: issue_calls_def)
    then show ?thesis
      unfolding step using limited_call_spacing(2,3) [OF ok, where s = s and mi = mi and func = func] True by simp
  next
    case False
    with snoc have IH: "last_called ?s1 \<ge> clock s + (real (length ts) - 1) * mi" by simp
    have "last_called (snd (limited_call mi func t ?s1)) \<ge> last_called ?s1 + mi"
      by (rule limited_call_spacing(1) [OF ok])
    with IH have "last_called (snd (limited_call mi func t ?s1))
                    \<ge> clock s + (real (length (ts @ [t])) - 1) * mi"
      by (simp add: algebra_simps)
    then show ?thesis
      unfolding step using limited_call_spacing(3) [OF ok, where s = ?s1 and mi = mi and func = func] by simp
  qed
qed

text \<open>
  Calls issued one after another are spaced. For \<open>c > 0\<close>, \<open>N\<close> calls through
  one \<open>rate_limit(c)\<close> wrapper, each issued when the one before is over, take at
  least \<open>(N - 1) / c\<close> from the moment the first is issued to the moment the last
  returns. Each call waits so that the timestamp it records is at least \<open>1 / c\<close>
  after the one recorded before, and records it before the function runs.
\<close>

lemma sequential_calls_spaced:
  assumes "0 < c" "list_all timing_ok ts"
  shows "\<exists>mi. rate_limit_interval c = Inr mi \<and> mi = 1 / c
       \<and> (real (length ts) - 1) / c
            \<le> clock (issue_calls mi func ts s) - clock s
       \<and> (\<forall>t s'. timing_ok t \<longrightarrow>
             last_called s' + mi \<le> last_called (snd (limited_call mi func t s'))
           \<and> last_called (snd (limited_call mi func t s'))
               \<le> clock (snd (limited_call mi func t s')) - duration t)"
proof -
  have mi: "rate_limit_interval c = Inr (1 / c)"
    using assms(1) by (simp add: rate_limit_interval_def)
  have total: "(real (length ts) - 1) / c \<le> clock (issue_calls (1 / c) func ts s) - clock s"
  proof (cases "ts = []")
    case True
    then show ?thesis using assms(1) by (simp add: issue_calls_def)
  next
    case False
    from issue_calls_last [OF assms(2) False, where s = s and mi = "1 / c" and func = func]
    show ?thesis by (simp add: field_simps)
  qed
  have each: "last_called s' + 1 / c \<le> last_called (snd (limited_call (1 / c) func t s'))
           \<and> last_called (snd (limited_call (1 / c) func t s'))
               \<le> clock (snd (limited_call (1 / c) func t s')) - duration t"
    if "timing_ok t" for t s'
    using that limited_call_spacing(1) [OF that, where s = s' and mi = "1 / c" and func = func]
    by (auto simp: limited_call_def Let_def split: prod.splits)
  show ?thesis using mi total each by blast
qed

lemma sequential_calls_spaced_example:
  "\<exists>mi. rate_limit_interval 10 = Inr mi
       \<and> 2 / 10 \<le> clock (issue_calls mi noop [instant, instant, instant] (limiter_init 1000 ()))
                    - 1000"
proof -
  have ok: "list_all timing_ok [instant, instant, instant]"
    by (simp add: timing_ok_def instant_def)
  have pos: "(0::real) < 10" by simp
  from sequential_calls_spaced [OF pos ok, of noop "limiter_init 1000 ()"]
  show ?thesis by (auto simp: limiter_init_def)
qed

text \<open>A single call in flight is a call of \<open>limited_call\<close> that takes no time.\<close>

lemma single_call_in_flight:
  "overlapping_calls mi func (Suc 0) s =
     (case limited_call mi func instant s of (r, s') \<Rightarrow> ([r], s'))"
  by (simp add: overlapping_calls_def async_start_def async_resume_def limited_call_def
                instant_def Let_def max_def split: prod.splits)

text \<open>
  C9, for calls in flight together. Three calls are issued together through one
  \<open>rate_limit(10)\<close> wrapper of a coroutine function, at time 1000. The first need
  not sleep and records its timestamp; the second and the third both read that
  timestamp and sleep until 1000.1, and both are invoked then. All three have
  returned after \<open>1/10\<close>, less than the \<open>(3 - 1)/10\<close> of the claim: the two calls
  resumed together are not spaced at all.
\<close>

theorem rate_limit_overlapping_calls:
  "rate_limit_interval 10 = Inr (1 / 10)
   \<and> fst (overlapping_calls (1 / 10) noop 3 (limiter_init 1000 ())) = [Inr (), Inr (), Inr ()]
   \<and> clock (snd (overlapping_calls (1 / 10) noop 3 (limiter_init 1000 ()))) - 1000 = 1 / 10
   \<and> last_called (snd (overlapping_calls (1 / 10) noop 3 (limiter_init 1000 ()))) = 1000 + 1 / 10
   \<and> (1::real) / 10 < (3 - 1) / 10"
  by (simp add: rate_limit_interval_def overlapping_calls_def async_start_def async_resume_def
                limiter_init_def noop_def Let_def numeral_3_eq_3)

subsection \<open>Fan-out: schedules, aliasing and independence\<close>

lemma run_schedule_append:
  "run_schedule (s1 @ s2) cs h =
     (case run_schedule s1 cs h of (h1, cs1) \<Rightarrow> run_schedule s2 cs1 h1)"
  by (induction s1 cs h rule: run_schedule.induct) (auto split: prod.splits)

lemma run_schedule_length:
  "run_schedule sched cs h = (h', cs') \<Longrightarrow> length cs' = length cs"
  by (induction sched cs h rule: run_schedule.induct) (auto split: prod.splits if_splits)

lemma list_update_same: "cs ! a = c \<Longrightarrow> cs[a := c] = cs"
  by auto

lemma yields_Finished:
  "yields st (Finished res) \<longleftrightarrow> res = Returned st \<or> (\<exists>e. res = Raised e)"
  by (auto elim: yields.cases intro: yields.intros)

text \<open>
  A schedule on a task list in which only task \<open>i\<close> is still running: when it ends
  with task \<open>i\<close> finished, the heap is the one task \<open>i\<close> leaves when run alone.
\<close>

lemma only_main:
  assumes "\<forall>k<length cs. k \<noteq> i \<longrightarrow> (\<exists>res. cs ! k = Finished res)"
      and "i < length cs"
      and "run_schedule sched cs h = (h', cs')"
      and "cs' ! i = Finished res"
  shows "solo (cs ! i) h = (res, h') \<and> cs' = cs[i := Finished res]"
  using assms
proof (induction sched arbitrary: cs h)
  case Nil
  then show ?case by (auto simp: list_update_same)
next
  case (Cons a sched)
  show ?case
  proof (cases "a < length cs")
    case False
    with Cons.prems have "run_schedule sched cs h = (h', cs')" by simp
    from Cons.IH [OF Cons.prems(1,2) this Cons.prems(4)] show ?thesis .
  next
    case inb: True
    show ?thesis
    proof (cases "a = i")
      case False
      with Cons.prems(1) inb obtain r where fin: "cs ! a = Finished r" by blast
      then have "run_schedule sched cs h = (h', cs')"
        using Cons.prems(3) inb by (simp add: list_update_same)
      from Cons.IH [OF Cons.prems(1,2) this Cons.prems(4)] show ?thesis .
    next
      case True
      show ?thesis
      proof (cases "cs ! i")
        case (Finished r)
        then have "run_schedule sched cs h = (h', cs')"
          using Cons.prems(3) inb True by (simp add: list_update_same)
        from Cons.IH [OF Cons.prems(1,2) this Cons.prems(4)] show ?thesis .
      next
        case (Suspended eff k)
        let ?cs1 = "cs[i := k h]"
        have run: "run_schedule sched ?cs1 (eff h) = (h', cs')"
          using Cons.prems(3) inb True Suspended by simp
        have others: "\<forall>k'<length ?cs1. k' \<noteq> i \<longrightarrow> (\<exists>res. ?cs1 ! k' = Finished res)"
          using Cons.prems(1) by simp
        have "i < length ?cs1" using Cons.prems(2) by simp
        from Cons.IH [OF others this run Cons.prems(4)]
        have "solo (?cs1 ! i) (eff h) = (res, h')" "cs' = ?cs1[i := Finished res]" by auto
        then show ?thesis using Suspended Cons.prems(2) by simp
      qed
    qed
  qed
qed

lemma commutes_solo:
  "commutes w c \<Longrightarrow> solo c (w h) = (fst (solo c h), w (snd (solo c h)))"
  by (induction w c arbitrary: h rule: commutes.induct) simp_all

lemma commutes_step:
  "commutes w (Suspended eff k) \<Longrightarrow> commutes w (k h)"
  by (auto elim: commutes.cases)

text \<open>
  Task \<open>i\<close> is running and task \<open>j\<close> has one write \<open>w\<close> left, which commutes
  with task \<open>i\<close>: wherever the schedule places the write, the final heap is the one
  with the write made last.
\<close>

lemma main_and_single:
  assumes "\<forall>k<length cs. k \<noteq> i \<longrightarrow> k \<noteq> j \<longrightarrow> (\<exists>res. cs ! k = Finished res)"
      and "i < length cs" "j < length cs" "i \<noteq> j"
      and "cs ! j = Suspended w (\<lambda>h. Finished rj)"
      and "commutes w (cs ! i)"
      and "run_schedule sched cs h = (h', cs')"
      and "cs' ! i = Finished res" "cs' ! j = Finished res'"
  shows "res = fst (solo (cs ! i) h) \<and> h' = w (snd (solo (cs ! i) h)) \<and> res' = rj"
  using assms
proof (induction sched arbitrary: cs h)
  case Nil
  then show ?case by auto
next
  case (Cons a sched)
  show ?case
  proof (cases "a < length cs")
    case False
    with Cons.prems have "run_schedule sched cs h = (h', cs')" by simp
    from Cons.IH [OF Cons.prems(1-6) this Cons.prems(8,9)] show ?thesis .
  next
    case inb: True
    consider (other) "a \<noteq> i" "a \<noteq> j" | (single) "a = j" | (main) "a = i" by blast
    then show ?thesis
    proof cases
      case other
      with Cons.prems(1) inb obtain r where "cs ! a = Finished r" by blast
      then have "run_schedule sched cs h = (h', cs')"
        using Cons.prems(7) inb by (simp add: list_update_same)
      from Cons.IH [OF Cons.prems(1-6) this Cons.prems(8,9)] show ?thesis .
    next
      case single
      let ?cs1 = "cs[j := Finished rj]"
      have run: "run_schedule sched ?cs1 (w h) = (h', cs')"
        using Cons.prems(7) inb single Cons.prems(5) by simp
      have others: "\<forall>k<length ?cs1. k \<noteq> i \<longrightarrow> (\<exists>res. ?cs1 ! k = Finished res)"
        using Cons.prems(1,3) by (auto simp: nth_list_update)
      have il: "i < length ?cs1" using Cons.prems(2) by simp
      from only_main [OF others il run Cons.prems(8)]
      have s: "solo (?cs1 ! i) (w h) = (res, h')" and c: "cs' = ?cs1[i := Finished res]"
        by auto
      have "?cs1 ! i = cs ! i" using Cons.prems(4) by simp
      with s have "solo (cs ! i) (w h) = (res, h')" by simp
      with commutes_solo [OF Cons.prems(6), of h]
      have "res = fst (solo (cs ! i) h)" "h' = w (snd (solo (cs ! i) h))" by auto
      moreover have "cs' ! j = Finished rj"
        using c Cons.prems(3,4) by simp
      with Cons.prems(9) have "res' = rj" by simp
      ultimately show ?thesis by simp
    next
      case main
      show ?thesis
      proof (cases "cs ! i")
        case (Finished r)
        then have "run_schedule sched cs h = (h', cs')"
          using Cons.prems(7) inb main by (simp add: list_update_same)
        from Cons.IH [OF Cons.prems(1-6) this Cons.prems(8,9)] show ?thesis .
      next
        case (Suspended eff k)
        let ?cs1 = "cs[i := k h]"
        have run: "run_schedule sched ?cs1 (eff h) = (h', cs')"
          using Cons.prems(7) inb main Suspended by simp
        have others: "\<forall>k'<length ?cs1. k' \<noteq> i \<longrightarrow> k' \<noteq> j \<longrightarrow> (\<exists>res. ?cs1 ! k' = Finished res)"
          using Cons.prems(1) by simp
        have sj: "?cs1 ! j = Suspended w (\<lambda>h. Finished rj)"
          using Cons.prems(4,5) by simp
        have cm: "commutes w (?cs1 ! i)"
          using Cons.prems(2,6) Suspended commutes_step by simp
        have "i < length ?cs1" "j < length ?cs1" using Cons.prems(2,3) by simp_all
        from Cons.IH [OF others this Cons.prems(4) sj cm run Cons.prems(8,9)]
        have "res = fst (solo (?cs1 ! i) (eff h))" "h' = w (snd (solo (?cs1 ! i) (eff h)))"
             "res' = rj" by auto
        then show ?thesis using Suspended Cons.prems(2) by simp
      qed
    qed
  qed
qed

text \<open>
  Every result the branches can produce is an exception or the shared object, and
  merging the shared object into itself changes nothing.
\<close>

lemma yields_resume: "yields st c \<Longrightarrow> yields st (snd (resume c h))"
  by (cases c) (auto elim: yields.cases)

lemma yields_run_schedule:
  "list_all (yields st) cs \<Longrightarrow> run_schedule sched cs h = (h', cs')
   \<Longrightarrow> list_all (yields st) cs'"
proof (induction sched cs h rule: run_schedule.induct)
  case (1 cs h)
  then show ?case by simp
next
  case (2 i sched cs h)
  show ?case
  proof (cases "i < length cs")
    case False
    with 2 show ?thesis by simp
  next
    case True
    obtain h1 c1 where r: "resume (cs ! i) h = (h1, c1)" by (cases "resume (cs ! i) h")
    have "yields st (cs ! i)" using "2.prems"(1) True by (simp add: list_all_length)
    then have "yields st c1" using yields_resume [of st "cs ! i" h] r by simp
    then have "list_all (yields st) (cs[i := c1])"
      using "2.prems"(1) True by (simp add: list_all_length nth_list_update)
    with 2 True r show ?thesis by simp
  qed
qed

lemma yields_results:
  "list_all (yields st) cs \<Longrightarrow> results_of cs = Some rs
   \<Longrightarrow> \<forall>res\<in>set rs. res = Returned st \<or> (\<exists>e. res = Raised e)"
proof (induction cs arbitrary: rs rule: results_of.induct)
  case 1
  then show ?case by simp
next
  case (2 res cs)
  from "2.prems" obtain z where z: "results_of cs = Some z" "rs = res # z" by auto
  from "2.prems"(1) have hd: "res = Returned st \<or> (\<exists>e. res = Raised e)"
    and tl: "list_all (yields st) cs" by (simp_all add: yields_Finished)
  from "2.IH" [OF tl z(1)] hd z(2) show ?case by simp
next
  case (3 eff k cs)
  then show ?case by simp
qed

lemma merge_initial_alias:
  "res = Returned st \<or> (\<exists>e. res = Raised e) \<Longrightarrow> merge_initial st h res = h"
  by (auto simp: merge_initial_def Let_def)

lemma merge_deep_alias:
  "res = Returned st \<or> (\<exists>e. res = Raised e) \<Longrightarrow> merge_deep st h res = h"
  by (auto simp: merge_deep_def Let_def)

lemma foldl_merge_initial_alias:
  "\<forall>res\<in>set rs. res = Returned st \<or> (\<exists>e. res = Raised e)
   \<Longrightarrow> foldl (merge_initial st) h rs = h"
  by (induction rs) (simp_all add: merge_initial_alias)

lemma foldl_merge_deep_alias:
  "\<forall>res\<in>set rs. res = Returned st \<or> (\<exists>e. res = Raised e)
   \<Longrightarrow> foldl (merge_deep st) h rs = h"
  by (induction rs) (simp_all add: merge_deep_alias)

lemma finished_stays:
  "k < length cs \<Longrightarrow> cs ! k = Finished r \<Longrightarrow> run_schedule sched cs h = (h', cs')
   \<Longrightarrow> cs' ! k = Finished r"
proof (induction sched cs h rule: run_schedule.induct)
  case (1 cs h)
  then show ?case by simp
next
  case (2 i sched cs h)
  show ?case
  proof (cases "i < length cs")
    case False
    with 2 show ?thesis by simp
  next
    case True
    obtain h1 c1 where r: "resume (cs ! i) h = (h1, c1)" by (cases "resume (cs ! i) h")
    have "cs[i := c1] ! k = Finished r"
      using "2.prems"(1,2) r by (cases "i = k") auto
    with 2 True r show ?thesis by simp
  qed
qed

lemma results_of_nth:
  "results_of cs = Some rs \<Longrightarrow>
   length rs = length cs \<and> (\<forall>k<length cs. cs ! k = Finished (rs ! k))"
proof (induction cs arbitrary: rs rule: results_of.induct)
  case 1
  then show ?case by simp
next
  case (2 res cs)
  from "2.prems" obtain z where z: "results_of cs = Some z" "rs = res # z" by auto
  from "2.IH" [OF z(1)] z(2) show ?case by (auto simp: nth_Cons split: nat.splits)
next
  case (3 eff k cs)
  then show ?case by simp
qed

lemma two_tasks:
  assumes "c2 = Finished r2 \<or> (c2 = Suspended w (\<lambda>h. Finished r2) \<and> commutes w c1)"
      and "run_schedule sched [c1, c2] h = (h', cs')"
      and "results_of cs' = Some rs"
  shows "(rs, h') = solo_all [c1, c2] h"
proof -
  from results_of_nth [OF assms(3)] run_schedule_length [OF assms(2)]
  have len: "length rs = 2" and fin: "cs' ! 0 = Finished (rs ! 0)" "cs' ! 1 = Finished (rs ! 1)"
    by auto
  from len have rs: "rs = [rs ! 0, rs ! 1]"
    by (cases rs; cases "tl rs") auto
  from assms(1) show ?thesis
  proof
    assume c2: "c2 = Finished r2"
    have others: "\<forall>k<length [c1, c2]. k \<noteq> 0 \<longrightarrow> (\<exists>res. [c1, c2] ! k = Finished res)"
      using c2 by (auto simp: nth_Cons split: nat.splits)
    from only_main [OF others _ assms(2) fin(1)]
    have "solo c1 h = (rs ! 0, h')" "cs' = [Finished (rs ! 0), c2]" by auto
    with fin(2) c2 have "rs ! 1 = r2" by simp
    with \<open>solo c1 h = (rs ! 0, h')\<close> c2 rs show ?thesis by (metis solo_all.simps solo.simps(1) case_prod_conv)
  next
    assume c2: "c2 = Suspended w (\<lambda>h. Finished r2) \<and> commutes w c1"
    have others: "\<forall>k<length [c1, c2]. k \<noteq> 0 \<longrightarrow> k \<noteq> 1 \<longrightarrow> (\<exists>res. [c1, c2] ! k = Finished res)"
      by (auto simp: nth_Cons split: nat.splits)
    from main_and_single [OF others _ _ _ _ _ assms(2) fin(1) fin(2), of w r2] c2
    have "rs ! 0 = fst (solo c1 h)" "h' = w (snd (solo c1 h))" "rs ! 1 = r2" by auto
    then show ?thesis using c2 rs by (simp add: split_beta)
  qed
qed

lemma four_tasks:
  assumes "c1 = Finished r1 \<or> (c1 = Suspended w (\<lambda>h. Finished r1) \<and> commutes w c3)"
      and "run_schedule sched [Finished r0, c1, Finished r2, c3] h = (h', cs')"
      and "results_of cs' = Some rs"
  shows "(rs, h') = solo_all [Finished r0, c1, Finished r2, c3] h"
proof -
  let ?cs = "[Finished r0, c1, Finished r2, c3]"
  from results_of_nth [OF assms(3)] run_schedule_length [OF assms(2)]
  have len: "length rs = 4"
    and fin: "cs' ! 0 = Finished (rs ! 0)" "cs' ! 1 = Finished (rs ! 1)"
             "cs' ! 2 = Finished (rs ! 2)" "cs' ! 3 = Finished (rs ! 3)"
    by auto
  from len have rs: "rs = [rs ! 0, rs ! 1, rs ! 2, rs ! 3]"
    by (cases rs; cases "tl rs"; cases "tl (tl rs)"; cases "tl (tl (tl rs))") auto
  have r0: "rs ! 0 = r0"
    using finished_stays [of 0 ?cs r0 sched h h' cs'] assms(2) fin(1) by simp
  have r2: "rs ! 2 = r2"
    using finished_stays [of 2 ?cs r2 sched h h' cs'] assms(2) fin(3) by simp
  from assms(1) show ?thesis
  proof
    assume c1: "c1 = Finished r1"
    have r1: "rs ! 1 = r1"
      using finished_stays [of 1 ?cs r1 sched h h' cs'] assms(2) fin(2) c1 by simp
    have others: "\<forall>k<length ?cs. k \<noteq> 3 \<longrightarrow> (\<exists>res. ?cs ! k = Finished res)"
      using c1 by (auto simp: nth_Cons split: nat.splits)
    from only_main [OF others _ assms(2) fin(4)]
    have "solo c3 h = (rs ! 3, h')" by auto
    with r0 r1 r2 c1 rs show ?thesis
      by (metis solo_all.simps solo.simps(1) case_prod_conv)
  next
    assume c1: "c1 = Suspended w (\<lambda>h. Finished r1) \<and> commutes w c3"
    have others: "\<forall>k<length ?cs. k \<noteq> 3 \<longrightarrow> k \<noteq> 1 \<longrightarrow> (\<exists>res. ?cs ! k = Finished res)"
      by (auto simp: nth_Cons split: nat.splits)
    from main_and_single [OF others _ _ _ _ _ assms(2) fin(4) fin(2), of w r1] c1
    have m: "rs ! 3 = fst (solo c3 h)" "h' = w (snd (solo c3 h))" "rs ! 1 = r1" by auto
    have "solo_all ?cs h = ([r0, r1, r2, fst (solo c3 (w h))], snd (solo c3 (w h)))"
      using c1 by (simp add: split_beta)
    also have "\<dots> = ([r0, r1, r2, fst (solo c3 h)], w (snd (solo c3 h)))"
      using c1 by (simp add: commutes_solo)
    finally show ?thesis using m r0 r2 rs by simp
  qed
qed

text \<open>Some schedule lets every task finish.\<close>

lemma finish_one:
  "i < length cs \<Longrightarrow> cs ! i = c \<Longrightarrow>
   \<exists>n. run_schedule (replicate n i) cs h
        = (snd (solo c h), cs[i := Finished (fst (solo c h))])"
proof (induction c arbitrary: cs h)
  case (Finished res)
  then have "run_schedule (replicate 0 i) cs h = (snd (solo (Finished res) h),
               cs[i := Finished (fst (solo (Finished res) h))])"
    by (simp add: list_update_same)
  then show ?case by blast
next
  case (Suspended eff k)
  let ?cs1 = "cs[i := k h]"
  have il: "i < length ?cs1" and at: "?cs1 ! i = k h" using Suspended.prems by simp_all
  have "k h \<in> range k" by simp
  from Suspended.IH [OF this il at, of "eff h"] obtain n where
    n: "run_schedule (replicate n i) ?cs1 (eff h)
          = (snd (solo (k h) (eff h)), ?cs1[i := Finished (fst (solo (k h) (eff h)))])"
    by blast
  have "run_schedule (replicate (Suc n) i) cs h
          = (snd (solo (Suspended eff k) h), cs[i := Finished (fst (solo (Suspended eff k) h))])"
    using n Suspended.prems by simp
  then show ?case by blast
qed

lemma finish_prefix:
  "j \<le> length cs \<Longrightarrow>
   \<exists>sched h' cs'. run_schedule sched cs h = (h', cs') \<and> length cs' = length cs
      \<and> (\<forall>k<j. \<exists>res. cs' ! k = Finished res)"
proof (induction j)
  case 0
  have "run_schedule [] cs h = (h, cs)" by simp
  then show ?case by (metis not_less_zero)
next
  case (Suc j)
  then obtain sched h1 cs1 where
    run1: "run_schedule sched cs h = (h1, cs1)" and len: "length cs1 = length cs"
    and fin: "\<forall>k<j. \<exists>res. cs1 ! k = Finished res"
    by auto
  have jl: "j < length cs1" using Suc.prems len by simp
  from finish_one [OF jl refl, of h1] obtain n where
    n: "run_schedule (replicate n j) cs1 h1
          = (snd (solo (cs1 ! j) h1), cs1[j := Finished (fst (solo (cs1 ! j) h1))])"
    by blast
  let ?cs2 = "cs1[j := Finished (fst (solo (cs1 ! j) h1))]"
  have "run_schedule (sched @ replicate n j) cs h = (snd (solo (cs1 ! j) h1), ?cs2)"
    using run1 n by (simp add: run_schedule_append)
  moreover have "length ?cs2 = length cs" using len by simp
  moreover have "\<forall>k<Suc j. \<exists>res. ?cs2 ! k = Finished res"
    using fin jl by (auto simp: nth_list_update less_Suc_eq)
  ultimately show ?case by blast
qed

lemma all_finished_results:
  "(\<forall>k<length cs. \<exists>res. cs ! k = Finished res) \<Longrightarrow> results_of cs \<noteq> None"
proof (induction cs rule: results_of.induct)
  case 1
  then show ?case by simp
next
  case (2 res cs)
  then have "\<forall>k<length cs. \<exists>res. cs ! k = Finished res" by fastforce
  with 2 show ?case by auto
next
  case (3 eff k cs)
  then have "\<exists>res. (Suspended eff k # cs) ! 0 = Finished res" by blast
  then show ?case by simp
qed

lemma gather_completes: "\<exists>sched. gather sched cs h \<noteq> None"
proof -
  obtain h1 cs1 where start: "run_schedule [0..<length cs] cs h = (h1, cs1)"
    by (cases "run_schedule [0..<length cs] cs h")
  from finish_prefix [of "length cs1" cs1 h1] obtain sched h' cs' where
    run: "run_schedule sched cs1 h1 = (h', cs')" and len: "length cs' = length cs1"
    and fin: "\<forall>k<length cs1. \<exists>res. cs' ! k = Finished res"
    by auto
  from fin len have "results_of cs' \<noteq> None" by (simp add: all_finished_results)
  then have "gather sched cs h \<noteq> None"
    using start run by (auto simp: gather_def run_schedule_append)
  then show ?thesis by blast
qed

lemma yields_bind:
  "yields st c \<Longrightarrow> (\<And>res. res = Returned st \<or> (\<exists>e. res = Raised e) \<Longrightarrow> yields st (f res))
   \<Longrightarrow> yields st (bind c f)"
  by (induction st c rule: yields.induct) (auto intro: yields.intros)

lemma yields_await_then: "yields st c \<Longrightarrow> yields st (await_then c)"
  by (cases c) (auto intro: yields.intros elim: yields.cases)

lemma yields_retry_coro:
  "(\<And>a. yields st (body a)) \<Longrightarrow> yields st (retry_coro n ex body a)"
proof (induction n arbitrary: a)
  case 0
  then show ?case by (simp add: yields.intros)
next
  case (Suc n)
  show ?case
    unfolding retry_coro.simps
    by (rule yields_bind [OF Suc.prems])
       (auto intro!: yields_raised yields_returned yields_await_then Suc.IH [OF Suc.prems])
qed

lemma yields_fetch_sec_data_body: "yields st (fetch_sec_data_body io st)"
  by (auto simp: fetch_sec_data_body_def await_companyfacts_def await_submissions_def
           intro!: yields.intros split: sum.splits)

lemma yields_fetch_sec_data: "yields st (fetch_sec_data ios st)"
  unfolding fetch_sec_data_def
  by (rule yields_retry_coro)
     (auto simp: rate_limited_def intro: yields.intros yields_fetch_sec_data_body)

lemma yields_fetch_company_profile: "yields st (fetch_company_profile out st)"
  by (auto simp: fetch_company_profile_def intro!: yields.intros split: sum.splits)

lemma yields_initial_data_branches: "list_all (yields st) (initial_data_branches io st)"
  by (simp add: initial_data_branches_def yields_fetch_sec_data yields_fetch_company_profile)

lemma yields_deep_research_branches: "list_all (yields st) (deep_research_branches io st)"
  by (auto simp: deep_research_branches_def fetch_news_timeline_def identify_competitors_def
        extract_investor_materials_def analyze_social_sentiment_def
        intro!: yields.intros split: sum.splits option.splits)

text \<open>The decorators keep \<open>commutes\<close>, as they keep \<open>yields\<close>.\<close>

lemma commutes_resume: "commutes w c \<Longrightarrow> commutes w (snd (resume c h))"
  by (cases c) (auto elim: commutes.cases)

lemma commutes_bind:
  "commutes w c \<Longrightarrow> (\<And>res. commutes w (f res)) \<Longrightarrow> commutes w (bind c f)"
  by (induction w c rule: commutes.induct) (auto intro: commutes.intros)

lemma commutes_await_then: "commutes w c \<Longrightarrow> commutes w (await_then c)"
  by (cases c) (auto intro: commutes.intros elim: commutes.cases)

lemma commutes_retry_coro:
  "(\<And>a. commutes w (body a)) \<Longrightarrow> commutes w (retry_coro n ex body a)"
proof (induction n arbitrary: a)
  case 0
  then show ?case by (simp add: commutes.intros)
next
  case (Suc n)
  show ?case
    unfolding retry_coro.simps
    by (rule commutes_bind [OF Suc.prems])
       (auto intro: commutes.intros commutes_await_then Suc.IH [OF Suc.prems]
             split: result.splits)
qed

lemma commutes_fetch_sec_data_body:
  "commutes (profile_write out st) (fetch_sec_data_body io st)"
  unfolding fetch_sec_data_body_def await_companyfacts_def await_submissions_def
  by (intro commutes.intros)
     (auto simp: profile_write_def fun_eq_iff intro!: commutes.intros split: sum.splits)

lemma commutes_fetch_sec_data:
  "commutes (profile_write out st) (fetch_sec_data ios st)"
  unfolding fetch_sec_data_def
  by (rule commutes_retry_coro)
     (auto simp: rate_limited_def intro!: commutes.intros commutes_fetch_sec_data_body)

lemma start_two:
  "run_schedule [0..<length [a, b]] [a, b] h =
     (fst (resume b (fst (resume a h))),
      [snd (resume a h), snd (resume b (fst (resume a h)))])"
  by (simp add: upt_rec split_beta)

lemma start_four:
  "run_schedule [0..<length [a, b, c, d]] [a, b, c, d] h =
     (let h1 = fst (resume a h); h2 = fst (resume b h1); h3 = fst (resume c h2)
      in (fst (resume d h3),
          [snd (resume a h), snd (resume b h1), snd (resume c h2), snd (resume d h3)]))"
  by (simp add: upt_rec split_beta Let_def)

lemma resume_fetch_company_profile:
  "snd (resume (fetch_company_profile out st) h) =
     (if found (h st) = None then Finished (Returned st)
      else Suspended (profile_write out st)
             (\<lambda>h. Finished (case out of Inl e \<Rightarrow> Raised e | Inr p \<Rightarrow> Returned st)))"
  by (cases out) (simp_all add: fetch_company_profile_def profile_write_def fun_eq_iff)

lemma gather_initial_sequential:
  assumes "gather sched (initial_data_branches io st) h = Some (rs, h')"
  shows "(rs, h') = sequential (initial_data_branches io st) h"
proof -
  let ?a = "fetch_sec_data (sec_attempts io) st"
  let ?b = "fetch_company_profile (profile_outcome io) st"
  let ?h1 = "fst (resume ?a h)"
  let ?c1 = "snd (resume ?a h)"
  let ?c2 = "snd (resume ?b ?h1)"
  let ?h2 = "fst (resume ?b ?h1)"
  let ?r2 = "case profile_outcome io of Inl e \<Rightarrow> Raised e | Inr p \<Rightarrow> Returned st"
  obtain cs' where run: "run_schedule sched [?c1, ?c2] ?h2 = (h', cs')"
    and res: "results_of cs' = Some rs"
    using assms start_two [of ?a ?b h]
    by (auto simp: gather_def initial_data_branches_def run_schedule_append
             simp del: upt_Suc split: prod.splits)
  have cm: "commutes (profile_write (profile_outcome io) st) ?c1"
    by (rule commutes_resume [OF commutes_fetch_sec_data])
  have "(rs, h') = solo_all [?c1, ?c2] ?h2"
  proof (cases "found (?h1 st) = None")
    case True
    then have "?c2 = Finished (Returned st)" by (simp add: resume_fetch_company_profile)
    then show ?thesis using two_tasks [OF _ run res, of "Returned st"] by simp
  next
    case False
    then have "?c2 = Suspended (profile_write (profile_outcome io) st) (\<lambda>h. Finished ?r2)"
      by (simp add: resume_fetch_company_profile)
    with cm show ?thesis using two_tasks [OF _ run res, of ?r2] by simp
  qed
  then show ?thesis
    using start_two [of ?a ?b h]
    by (simp add: sequential_def initial_data_branches_def del: upt_Suc)
qed

lemma resume_fetch_news_timeline:
  "\<exists>r. snd (resume (fetch_news_timeline out st) h) = Finished r"
  by (simp add: fetch_news_timeline_def split: sum.splits)

lemma resume_extract_investor_materials:
  "\<exists>r. snd (resume (extract_investor_materials out st) h) = Finished r"
  by (simp add: extract_investor_materials_def split: sum.splits)

lemma resume_identify_competitors_eq:
  "snd (resume (identify_competitors out waits st) h) =
     (if found (h st) = None then Finished (Returned st)
      else (case out of
              Inl e \<Rightarrow> Finished (Raised e)
            | Inr cs \<Rightarrow>
                if waits
                then Suspended (competitors_write cs st) (\<lambda>h. Finished (Returned st))
                else Finished (Returned st)))"
  by (simp add: identify_competitors_def competitors_write_def fun_eq_iff split: sum.splits)

lemma resume_identify_competitors:
  "(\<exists>r. snd (resume (identify_competitors out waits st) h) = Finished r)
   \<or> (\<exists>cs. snd (resume (identify_competitors out waits st) h)
            = Suspended (competitors_write cs st) (\<lambda>h. Finished (Returned st)))"
  unfolding resume_identify_competitors_eq
  by (auto split: sum.splits)

lemma commutes_analyze_social_sentiment:
  "commutes (competitors_write cs st) (snd (resume (analyze_social_sentiment out waits st) h))"
  by (auto simp: analyze_social_sentiment_def competitors_write_def fun_eq_iff
           intro!: commutes.intros split: sum.splits)

lemma gather_deep_sequential:
  assumes "gather sched (deep_research_branches io st) h = Some (rs, h')"
  shows "(rs, h') = sequential (deep_research_branches io st) h"
proof -
  let ?a = "fetch_news_timeline (news_outcome io) st"
  let ?b = "identify_competitors (competitors_outcome io) (competitors_waits io) st"
  let ?m = "extract_investor_materials (materials_outcome io) st"
  let ?d = "analyze_social_sentiment (sentiment_outcome io) (sentiment_waits io) st"
  let ?h1 = "fst (resume ?a h)"
  let ?h2 = "fst (resume ?b ?h1)"
  let ?h3 = "fst (resume ?m ?h2)"
  let ?h4 = "fst (resume ?d ?h3)"
  let ?ca = "snd (resume ?a h)"
  let ?cb = "snd (resume ?b ?h1)"
  let ?cc = "snd (resume ?m ?h2)"
  let ?cd = "snd (resume ?d ?h3)"
  have start: "run_schedule [0..<length [?a, ?b, ?m, ?d]] [?a, ?b, ?m, ?d] h
                 = (?h4, [?ca, ?cb, ?cc, ?cd])"
    by (simp only: start_four Let_def)
  obtain cs' where run: "run_schedule sched [?ca, ?cb, ?cc, ?cd] ?h4 = (h', cs')"
    and res: "results_of cs' = Some rs"
    using assms start
    by (auto simp: gather_def deep_research_branches_def run_schedule_append
             simp del: upt_Suc split: prod.splits)
  obtain r0 where fa: "?ca = Finished r0"
    using resume_fetch_news_timeline by blast
  obtain r2 where fc: "?cc = Finished r2"
    using resume_extract_investor_materials by blast
  from resume_identify_competitors [of "competitors_outcome io" "competitors_waits io" st ?h1]
  have "(rs, h') = solo_all [?ca, ?cb, ?cc, ?cd] ?h4"
  proof
    assume "\<exists>r. ?cb = Finished r"
    then obtain r1 where c1: "?cb = Finished r1" by blast
    show ?thesis
      using four_tasks [of ?cb r1 _ ?cd sched r0 r2 ?h4 h' cs' rs] run res c1
      unfolding fa fc by simp
  next
    assume "\<exists>cs. ?cb = Suspended (competitors_write cs st) (\<lambda>h. Finished (Returned st))"
    then obtain cs where c1: "?cb = Suspended (competitors_write cs st) (\<lambda>h. Finished (Returned st))"
      by blast
    have cm: "commutes (competitors_write cs st) ?cd"
      by (rule commutes_analyze_social_sentiment)
    show ?thesis
      using four_tasks [of ?cb "Returned st" "competitors_write cs st" ?cd sched r0 r2 ?h4 h' cs' rs]
            run res c1 cm
      unfolding fa fc by simp
  qed
  then show ?thesis
    using start by (simp add: sequential_def deep_research_branches_def del: upt_Suc)
qed

lemma parallel_initial_data_Some:
  assumes "parallel_initial_data sched io st h = Some (st', h')"
  shows "st' = st \<and> (\<exists>rs. gather sched (initial_data_branches io st) h = Some (rs, h')
            \<and> length rs = 2 \<and> foldl (merge_initial st) h' rs = h'
            \<and> (rs, h') = sequential (initial_data_branches io st) h)"
proof -
  from assms obtain rs h1 where
    g: "gather sched (initial_data_branches io st) h = Some (rs, h1)"
    and st: "st' = st" and h': "h' = foldl (merge_initial st) h1 rs"
    by (auto simp: parallel_initial_data_def split: option.splits)
  obtain h2 cs' where run:
    "run_schedule ([0..<length (initial_data_branches io st)] @ sched)
       (initial_data_branches io st) h = (h2, cs')"
    by (cases "run_schedule ([0..<length (initial_data_branches io st)] @ sched)
                 (initial_data_branches io st) h")
  with g have res: "results_of cs' = Some rs" by (auto simp: gather_def)
  from yields_run_schedule [OF yields_initial_data_branches run]
  have "list_all (yields st) cs'" .
  from yields_results [OF this res]
  have al: "\<forall>res\<in>set rs. res = Returned st \<or> (\<exists>e. res = Raised e)" .
  then have same: "foldl (merge_initial st) h1 rs = h1"
    by (rule foldl_merge_initial_alias)
  from results_of_nth [OF res] run_schedule_length [OF run]
  have len: "length rs = 2" by (simp add: initial_data_branches_def)
  from same h' have hh: "h' = h1" by simp
  from gather_initial_sequential [OF g]
  have seq: "(rs, h1) = sequential (initial_data_branches io st) h" .
  show ?thesis unfolding hh using st g len same seq by blast
qed

lemma parallel_deep_research_Some:
  assumes "parallel_deep_research sched io st h = Some (st', h')"
  shows "st' = st \<and> (\<exists>rs. gather sched (deep_research_branches io st) h = Some (rs, h')
            \<and> length rs = 4 \<and> foldl (merge_deep st) h' rs = h'
            \<and> (rs, h') = sequential (deep_research_branches io st) h)"
proof -
  from assms obtain rs h1 where
    g: "gather sched (deep_research_branches io st) h = Some (rs, h1)"
    and st: "st' = st" and h': "h' = foldl (merge_deep st) h1 rs"
    by (auto simp: parallel_deep_research_def split: option.splits)
  obtain h2 cs' where run:
    "run_schedule ([0..<length (deep_research_branches io st)] @ sched)
       (deep_research_branches io st) h = (h2, cs')"
    by (cases "run_schedule ([0..<length (deep_research_branches io st)] @ sched)
                 (deep_research_branches io st) h")
  with g have res: "results_of cs' = Some rs" by (auto simp: gather_def)
  from yields_run_schedule [OF yields_deep_research_branches run]
  have "list_all (yields st) cs'" .
  from yields_results [OF this res]
  have al: "\<forall>res\<in>set rs. res = Returned st \<or> (\<exists>e. res = Raised e)" .
  then have same: "foldl (merge_deep st) h1 rs = h1"
    by (rule foldl_merge_deep_alias)
  from results_of_nth [OF res] run_schedule_length [OF run]
  have len: "length rs = 4" by (simp add: deep_research_branches_def)
  from same h' have hh: "h' = h1" by simp
  from gather_deep_sequential [OF g]
  have seq: "(rs, h1) = sequential (deep_research_branches io st) h" .
  show ?thesis unfolding hh using st g len same seq by blast
qed

lemma parallel_initial_data_completes: "\<exists>s. parallel_initial_data s io st h \<noteq> None"
proof -
  from gather_completes [of "initial_data_branches io st" h]
  obtain s where "gather s (initial_data_branches io st) h \<noteq> None" by blast
  then have "parallel_initial_data s io st h \<noteq> None"
    by (auto simp: parallel_initial_data_def)
  then show ?thesis by blast
qed

lemma parallel_deep_research_completes: "\<exists>s. parallel_deep_research s io st h \<noteq> None"
proof -
  from gather_completes [of "deep_research_branches io st" h]
  obtain s where "gather s (deep_research_branches io st) h \<noteq> None" by blast
  then have "parallel_deep_research s io st h \<noteq> None"
    by (auto simp: parallel_deep_research_def)
  then show ?thesis by blast
qed

text \<open>
  Aliasing, as an equation: the state a fan-out function returns is the state the
  branches left when \<open>gather\<close> returned. A fan-out function returns exactly when
  \<open>gather\<close> does.
\<close>

lemma merged_state_deep:
  "merged_state (parallel_deep_research sched io st h) =
     (case gather sched (deep_research_branches io st) h of
        None \<Rightarrow> None | Some (rs, h') \<Rightarrow> Some (h' st))"
proof (cases "gather sched (deep_research_branches io st) h")
  case None
  then show ?thesis by (simp add: parallel_deep_research_def merged_state_def)
next
  case (Some a)
  obtain rs h1 where a: "a = (rs, h1)" by (cases a)
  with Some have run: "parallel_deep_research sched io st h
                         = Some (st, foldl (merge_deep st) h1 rs)"
    by (simp add: parallel_deep_research_def)
  from parallel_deep_research_Some [OF run] Some a
  have "foldl (merge_deep st) h1 rs = h1" by auto
  with run Some a show ?thesis by (simp add: merged_state_def)
qed

lemma merged_state_initial:
  "merged_state (parallel_initial_data sched io st h) =
     (case gather sched (initial_data_branches io st) h of
        None \<Rightarrow> None | Some (rs, h') \<Rightarrow> Some (h' st))"
proof (cases "gather sched (initial_data_branches io st) h")
  case None
  then show ?thesis by (simp add: parallel_initial_data_def merged_state_def)
next
  case (Some a)
  obtain rs h1 where a: "a = (rs, h1)" by (cases a)
  with Some have run: "parallel_initial_data sched io st h
                         = Some (st, foldl (merge_initial st) h1 rs)"
    by (simp add: parallel_initial_data_def)
  from parallel_initial_data_Some [OF run] Some a
  have "foldl (merge_initial st) h1 rs = h1" by auto
  with run Some a show ?thesis by (simp add: merged_state_def)
qed

text \<open>The definitions a run on concrete inputs unfolds.\<close>

lemmas deep_eval =
  claimed_deep_research_def gather_def deep_research_branches_def
  fetch_news_timeline_def identify_competitors_def extract_investor_materials_def
  analyze_social_sentiment_def nothing_found_def both_wait_def
  demo_resolved_def demo_revisited_def demo_match_def new_state_def
  gathered_def single_heap_def branch_value_def own_deep_def
  Let_def upt_rec

lemmas initial_eval =
  claimed_initial_data_def gather_def initial_data_branches_def
  fetch_sec_data_def fetch_company_profile_def rate_limited_def fetch_sec_data_body_def
  await_companyfacts_def await_submissions_def is_ClientError_def
  submissions_fail_def demo_resolved_def demo_no_cik_def demo_match_def new_state_def
  truthy_str_def gathered_def single_heap_def branch_value_def own_initial_def
  Let_def numeral_3_eq_3 upt_rec

lemma parallel_initial_data_None:
  "(parallel_initial_data sched io st h = None)
     = (gather sched (initial_data_branches io st) h = None)"
  by (simp add: parallel_initial_data_def split: option.splits)

lemma parallel_deep_research_None:
  "(parallel_deep_research sched io st h = None)
     = (gather sched (deep_research_branches io st) h = None)"
  by (simp add: parallel_deep_research_def split: option.splits)

lemmas group_A_eval =
  parallel_initial_data_def claimed_initial_data_def gather_def initial_data_branches_def
  fetch_sec_data_def fetch_company_profile_def rate_limited_def fetch_sec_data_body_def
  await_companyfacts_def await_submissions_def is_ClientError_def
  submissions_fail_def demo_resolved_def demo_no_cik_def demo_match_def new_state_def
  truthy_str_def merge_initial_def merged_state_def gathered_def single_heap_def
  branch_value_def own_initial_def
  Let_def numeral_3_eq_3 upt_rec


text \<open>Whatever the schedule, a gathered outcome is an exception or the shared object.\<close>

lemma gather_initial_alias:
  assumes "gather sched (initial_data_branches io st) h = Some (rs, h')"
  shows "\<forall>res\<in>set rs. res = Returned st \<or> (\<exists>e. res = Raised e)"
proof -
  obtain h2 cs' where run:
    "run_schedule ([0..<length (initial_data_branches io st)] @ sched)
       (initial_data_branches io st) h = (h2, cs')"
    by (cases "run_schedule ([0..<length (initial_data_branches io st)] @ sched)
                 (initial_data_branches io st) h")
  with assms have res: "results_of cs' = Some rs" by (auto simp: gather_def)
  from yields_run_schedule [OF yields_initial_data_branches run]
  have "list_all (yields st) cs'" .
  from yields_results [OF this res] show ?thesis .
qed

lemma gather_deep_alias:
  assumes "gather sched (deep_research_branches io st) h = Some (rs, h')"
  shows "\<forall>res\<in>set rs. res = Returned st \<or> (\<exists>e. res = Raised e)"
proof -
  obtain h2 cs' where run:
    "run_schedule ([0..<length (deep_research_branches io st)] @ sched)
       (deep_research_branches io st) h = (h2, cs')"
    by (cases "run_schedule ([0..<length (deep_research_branches io st)] @ sched)
                 (deep_research_branches io st) h")
  with assms have res: "results_of cs' = Some rs" by (auto simp: gather_def)
  from yields_run_schedule [OF yields_deep_research_branches run]
  have "list_all (yields st) cs'" .
  from yields_results [OF this res] show ?thesis .
qed

subsection \<open>C1: the merged state of a fan-out group\<close>

text \<open>
  What the two fan-out functions do, under every schedule. Both return the state
  object they were given. Every gathered outcome is an exception or that same object, which the
  branches have already written in place, so the merge loop (in declaration order,
  with its presence checks) changes nothing: the merged state is the state as the
  branches' own writes left it, and it is the state of the run in which, after the
  first segments, the branches run one after another in declaration order. For given
  answers of the outside world, any two schedules under which the group completes
  give the same result, and some schedule lets it complete.
\<close>

lemma fan_out_merged_state:
  "(\<forall>st' h'. parallel_initial_data sched ioA st h = Some (st', h') \<longrightarrow>
       st' = st
     \<and> (\<exists>rs. gather sched (initial_data_branches ioA st) h = Some (rs, h')
             \<and> length rs = 2
             \<and> (\<forall>res\<in>set rs. res = Returned st \<or> (\<exists>e. res = Raised e))
             \<and> foldl (merge_initial st) h' rs = h'
             \<and> (rs, h') = sequential (initial_data_branches ioA st) h))
   \<and> (\<forall>s1 s2 a b. parallel_initial_data s1 ioA st h = Some a
                 \<and> parallel_initial_data s2 ioA st h = Some b \<longrightarrow> a = b)
   \<and> (\<exists>s. parallel_initial_data s ioA st h \<noteq> None)
   \<and> (\<forall>st' h'. parallel_deep_research sched ioB st h = Some (st', h') \<longrightarrow>
       st' = st
     \<and> (\<exists>rs. gather sched (deep_research_branches ioB st) h = Some (rs, h')
             \<and> length rs = 4
             \<and> (\<forall>res\<in>set rs. res = Returned st \<or> (\<exists>e. res = Raised e))
             \<and> foldl (merge_deep st) h' rs = h'
             \<and> (rs, h') = sequential (deep_research_branches ioB st) h))
   \<and> (\<forall>s1 s2 a b. parallel_deep_research s1 ioB st h = Some a
                 \<and> parallel_deep_research s2 ioB st h = Some b \<longrightarrow> a = b)
   \<and> (\<exists>s. parallel_deep_research s ioB st h \<noteq> None)"
proof (intro conjI allI impI)
  fix st' h'
  assume "parallel_initial_data sched ioA st h = Some (st', h')"
  from parallel_initial_data_Some [OF this] obtain rs where
    st: "st' = st"
    and rest: "gather sched (initial_data_branches ioA st) h = Some (rs, h')"
      "length rs = 2" "foldl (merge_initial st) h' rs = h'"
      "(rs, h') = sequential (initial_data_branches ioA st) h"
    by blast
  show "st' = st" by (rule st)
  from rest gather_initial_alias [OF rest(1)]
  show "\<exists>rs. gather sched (initial_data_branches ioA st) h = Some (rs, h')
             \<and> length rs = 2
             \<and> (\<forall>res\<in>set rs. res = Returned st \<or> (\<exists>e. res = Raised e))
             \<and> foldl (merge_initial st) h' rs = h'
             \<and> (rs, h') = sequential (initial_data_branches ioA st) h"
    by blast
next
  fix s1 s2 a b
  assume ab: "parallel_initial_data s1 ioA st h = Some a
                 \<and> parallel_initial_data s2 ioA st h = Some b"
  obtain sa ha sb hb where a: "a = (sa, ha)" and b: "b = (sb, hb)"
    by (cases a, cases b)
  from ab a parallel_initial_data_Some [of s1 ioA st h sa ha]
  have 1: "sa = st" "ha = snd (sequential (initial_data_branches ioA st) h)"
    by (auto dest: sym)
  from ab b parallel_initial_data_Some [of s2 ioA st h sb hb]
  have 2: "sb = st" "hb = snd (sequential (initial_data_branches ioA st) h)"
    by (auto dest: sym)
  from 1 2 a b show "a = b" by simp
next
  show "\<exists>s. parallel_initial_data s ioA st h \<noteq> None"
    by (rule parallel_initial_data_completes)
next
  fix st' h'
  assume "parallel_deep_research sched ioB st h = Some (st', h')"
  from parallel_deep_research_Some [OF this] obtain rs where
    st: "st' = st"
    and rest: "gather sched (deep_research_branches ioB st) h = Some (rs, h')"
      "length rs = 4" "foldl (merge_deep st) h' rs = h'"
      "(rs, h') = sequential (deep_research_branches ioB st) h"
    by blast
  show "st' = st" by (rule st)
  from rest gather_deep_alias [OF rest(1)]
  show "\<exists>rs. gather sched (deep_research_branches ioB st) h = Some (rs, h')
             \<and> length rs = 4
             \<and> (\<forall>res\<in>set rs. res = Returned st \<or> (\<exists>e. res = Raised e))
             \<and> foldl (merge_deep st) h' rs = h'
             \<and> (rs, h') = sequential (deep_research_branches ioB st) h"
    by blast
next
  fix s1 s2 a b
  assume ab: "parallel_deep_research s1 ioB st h = Some a
                 \<and> parallel_deep_research s2 ioB st h = Some b"
  obtain sa ha sb hb where a: "a = (sa, ha)" and b: "b = (sb, hb)"
    by (cases a, cases b)
  from ab a parallel_deep_research_Some [of s1 ioB st h sa ha]
  have 1: "sa = st" "ha = snd (sequential (deep_research_branches ioB st) h)"
    by (auto dest: sym)
  from ab b parallel_deep_research_Some [of s2 ioB st h sb hb]
  have 2: "sb = st" "hb = snd (sequential (deep_research_branches ioB st) h)"
    by (auto dest: sym)
  from 1 2 a b show "a = b" by simp
next
  show "\<exists>s. parallel_deep_research s ioB st h \<noteq> None"
    by (rule parallel_deep_research_completes)
qed

lemma fan_out_merged_state_example:
  "(\<exists>a. parallel_initial_data [0, 1, 0, 0, 0, 0, 0, 0, 0] submissions_fail 0
            (single_heap demo_resolved) = Some a
        \<and> parallel_initial_data [1, 0, 0, 0, 0, 0, 0, 0, 0] submissions_fail 0
            (single_heap demo_resolved) = Some a
        \<and> fst a = 0)
   \<and> (\<exists>b. parallel_deep_research [1, 3] both_wait 0 (single_heap demo_resolved) = Some b
        \<and> parallel_deep_research [3, 1] both_wait 0 (single_heap demo_resolved) = Some b
        \<and> fst b = 0)"
proof -
  have "parallel_initial_data [0, 1, 0, 0, 0, 0, 0, 0, 0] submissions_fail 0
          (single_heap demo_resolved) \<noteq> None"
    unfolding parallel_initial_data_None by (simp add: initial_eval)
  then obtain sa ha where a1: "parallel_initial_data [0, 1, 0, 0, 0, 0, 0, 0, 0] submissions_fail 0
          (single_heap demo_resolved) = Some (sa, ha)" by auto
  have "parallel_initial_data [1, 0, 0, 0, 0, 0, 0, 0, 0] submissions_fail 0
          (single_heap demo_resolved) \<noteq> None"
    unfolding parallel_initial_data_None by (simp add: initial_eval)
  then obtain a' where a2: "parallel_initial_data [1, 0, 0, 0, 0, 0, 0, 0, 0] submissions_fail 0
          (single_heap demo_resolved) = Some a'" by auto
  have "parallel_deep_research [1, 3] both_wait 0 (single_heap demo_resolved) \<noteq> None"
    unfolding parallel_deep_research_None by (simp add: deep_eval)
  then obtain sb hb where b1: "parallel_deep_research [1, 3] both_wait 0
          (single_heap demo_resolved) = Some (sb, hb)" by auto
  have "parallel_deep_research [3, 1] both_wait 0 (single_heap demo_resolved) \<noteq> None"
    unfolding parallel_deep_research_None by (simp add: deep_eval)
  then obtain b' where b2: "parallel_deep_research [3, 1] both_wait 0
          (single_heap demo_resolved) = Some b'" by auto
  note inst = fan_out_merged_state [where ioA = submissions_fail and ioB = both_wait
      and st = 0 and h = "single_heap demo_resolved"]
  from inst [where sched = "[0, 1, 0, 0, 0, 0, 0, 0, 0]"] a1 a2
  have "sa = 0" "a' = (sa, ha)" by blast+
  moreover from inst [where sched = "[1, 3]"] b1 b2
  have "sb = 0" "b' = (sb, hb)" by blast+
  ultimately show ?thesis using a1 a2 b1 b2 by simp
qed

text \<open>
  C1, at two inputs. By the claim the merged state is the fold of the branch results
  into the pre-fan-out state, in declaration order, a raised branch skipped and a
  field overwritten only by a value that is present (\<open>claimed_deep_research\<close>,
  \<open>claimed_initial_data\<close>). The merge loops of the two functions are written to do
  that, but the results they fold are the shared state object itself, which the
  branches have written already.
  \<^item> Group B on a state that lists a competitor, when the searches find nothing:
    every branch returns, \<open>identify_competitors\<close> has assigned the empty list, and
    the merged state lists no competitor, where the fold keeps the one set before.
  \<^item> Group A when the company facts arrive and every request for the submissions
    fails: the first branch raises, and the merged state holds the company facts it
    stored before, where the fold skips the branch and keeps the empty value.
\<close>

theorem fan_out_merge_differs_from_fold:
  "competitors demo_revisited = [[(''name'', ''Samsung'')]]
   \<and> gathered (gather [] (deep_research_branches nothing_found 0) (single_heap demo_revisited))
       = Some [Returned 0, Returned 0, Returned 0, Returned 0]
   \<and> map_option competitors
        (merged_state (parallel_deep_research [] nothing_found 0 (single_heap demo_revisited)))
       = Some []
   \<and> map_option competitors
        (claimed_deep_research [] nothing_found 0 (single_heap demo_revisited))
       = Some [[(''name'', ''Samsung'')]]
   \<and> companyfacts demo_resolved = []
   \<and> gathered (gather [0, 1, 0, 0, 0, 0, 0, 0, 0] (initial_data_branches submissions_fail 0)
                 (single_heap demo_resolved))
       = Some [Raised (Exn ClientError ''503''), Returned 0]
   \<and> map_option companyfacts
        (merged_state (parallel_initial_data [0, 1, 0, 0, 0, 0, 0, 0, 0] submissions_fail 0
                         (single_heap demo_resolved)))
       = Some [(''entityName'', ''Apple Inc.'')]
   \<and> map_option companyfacts
        (claimed_initial_data [0, 1, 0, 0, 0, 0, 0, 0, 0] submissions_fail 0
           (single_heap demo_resolved))
       = Some []"
proof -
  have B: "competitors demo_revisited = [[(''name'', ''Samsung'')]]
   \<and> gathered (gather [] (deep_research_branches nothing_found 0) (single_heap demo_revisited))
       = Some [Returned 0, Returned 0, Returned 0, Returned 0]
   \<and> map_option competitors
        (merged_state (parallel_deep_research [] nothing_found 0 (single_heap demo_revisited)))
       = Some []
   \<and> map_option competitors
        (claimed_deep_research [] nothing_found 0 (single_heap demo_revisited))
       = Some [[(''name'', ''Samsung'')]]"
    by (simp add: merged_state_deep deep_eval)
  have A: "companyfacts demo_resolved = []
   \<and> gathered (gather [0, 1, 0, 0, 0, 0, 0, 0, 0] (initial_data_branches submissions_fail 0)
                 (single_heap demo_resolved))
       = Some [Raised (Exn ClientError ''503''), Returned 0]
   \<and> map_option companyfacts
        (merged_state (parallel_initial_data [0, 1, 0, 0, 0, 0, 0, 0, 0] submissions_fail 0
                         (single_heap demo_resolved)))
       = Some [(''entityName'', ''Apple Inc.'')]
   \<and> map_option companyfacts
        (claimed_initial_data [0, 1, 0, 0, 0, 0, 0, 0, 0] submissions_fail 0
           (single_heap demo_resolved))
       = Some []"
    by (simp add: merged_state_initial initial_eval)
  from A B show ?thesis by blast
qed

subsection \<open>C2: a branch that raises\<close>

lemma sequential_initial:
  "sequential (initial_data_branches io st) h =
     solo_all [snd (resume (fetch_sec_data (sec_attempts io) st) h),
               snd (resume (fetch_company_profile (profile_outcome io) st)
                      (fst (resume (fetch_sec_data (sec_attempts io) st) h)))]
       (fst (resume (fetch_company_profile (profile_outcome io) st)
               (fst (resume (fetch_sec_data (sec_attempts io) st) h))))"
  using start_two [of "fetch_sec_data (sec_attempts io) st"
                      "fetch_company_profile (profile_outcome io) st" h]
  by (simp add: sequential_def initial_data_branches_def del: upt_Suc)

text \<open>The first segments of both branches write \<open>current_node\<close> only.\<close>

lemma resume_fetch_sec_data:
  "fst (resume (fetch_sec_data ios st) h) =
     (if limiter_sleeps (ios 0) then h else h(st := (h st)\<lparr>current_node := ''sec_fetch''\<rparr>))"
  by (simp add: fetch_sec_data_def numeral_3_eq_3 rate_limited_def fetch_sec_data_body_def)

lemma resume_fetch_company_profile_heap:
  "fst (resume (fetch_company_profile out st) h) = h(st := (h st)\<lparr>current_node := ''web_profile''\<rparr>)"
  by (simp add: fetch_company_profile_def)

lemma solo_profile_pending:
  "solo (snd (resume (fetch_company_profile out st) h0)) h =
     (if found (h0 st) = None then (Returned st, h)
      else (case out of Inl e \<Rightarrow> (Raised e, h)
            | Inr p \<Rightarrow> (Returned st, h(st := (h st)\<lparr>company_profile := Some p\<rparr>))))"
  by (simp add: fetch_company_profile_def split: sum.splits)

text \<open>Without a CIK the first branch raises in its first segment of work.\<close>

lemma solo_sec_no_cik:
  assumes "\<not> truthy_str (cik10 (h st))" "cik10 (h2 st) = cik10 (h st)"
  shows "fst (solo (snd (resume (fetch_sec_data ios st) h)) h2)
           = Raised (Exn ValueError ''CIK not set - company must be resolved first'')
       \<and> companyfacts (snd (solo (snd (resume (fetch_sec_data ios st) h)) h2) st)
           = companyfacts (h2 st)
       \<and> submissions (snd (solo (snd (resume (fetch_sec_data ios st) h)) h2) st)
           = submissions (h2 st)
       \<and> company_profile (snd (solo (snd (resume (fetch_sec_data ios st) h)) h2) st)
           = company_profile (h2 st)
       \<and> found (snd (solo (snd (resume (fetch_sec_data ios st) h)) h2) st) = found (h2 st)"
  using assms
  by (simp add: fetch_sec_data_def numeral_3_eq_3 rate_limited_def fetch_sec_data_body_def
                is_ClientError_def)

text \<open>With a CIK and both requests of the first attempt answered, it stores both.\<close>

lemma solo_sec_success:
  assumes "truthy_str (cik10 (h st))" "cik10 (h2 st) = cik10 (h st)"
      and "facts_response (ios 0) = Inr f" "submissions_response (ios 0) = Inr s"
  shows "fst (solo (snd (resume (fetch_sec_data ios st) h)) h2) = Returned st
       \<and> companyfacts (snd (solo (snd (resume (fetch_sec_data ios st) h)) h2) st) = f
       \<and> submissions (snd (solo (snd (resume (fetch_sec_data ios st) h)) h2) st) = s"
  using assms
  by (simp add: fetch_sec_data_def numeral_3_eq_3 rate_limited_def fetch_sec_data_body_def
                await_companyfacts_def await_submissions_def)

text \<open>The first branch never writes \<open>company_profile\<close>, whatever its attempts meet.\<close>

lemma commutes_set_profile_body:
  "commutes (\<lambda>h. h(st := (h st)\<lparr>company_profile := x\<rparr>)) (fetch_sec_data_body io st)"
  unfolding fetch_sec_data_body_def await_companyfacts_def await_submissions_def
  by (intro commutes.intros)
     (auto simp: fun_eq_iff intro!: commutes.intros split: sum.splits)

lemma commutes_set_profile:
  "commutes (\<lambda>h. h(st := (h st)\<lparr>company_profile := x\<rparr>)) (fetch_sec_data ios st)"
  unfolding fetch_sec_data_def
  by (rule commutes_retry_coro)
     (auto simp: rate_limited_def intro!: commutes.intros commutes_set_profile_body)

lemma solo_sec_keeps_profile:
  "company_profile (snd (solo (snd (resume (fetch_sec_data ios st) h0)) h) st)
     = company_profile (h st)"
proof -
  define c where "c = snd (resume (fetch_sec_data ios st) h0)"
  define w :: "heap \<Rightarrow> heap" where "w = (\<lambda>h'. h'(st := (h' st)\<lparr>company_profile := company_profile (h st)\<rparr>))"
  define s where "s = snd (solo c h)"
  have wh: "w h = h" by (simp add: w_def)
  have "commutes w c"
    unfolding w_def c_def by (rule commutes_resume [OF commutes_set_profile])
  from commutes_solo [OF this, of h]
  have "solo c h = (fst (solo c h), w (snd (solo c h)))" by (simp only: wh)
  from arg_cong [OF this, of snd] have "s = w s" by (simp only: snd_conv s_def)
  then have "s st = w s st" by (rule arg_cong)
  then have "company_profile (s st) = company_profile (w s st)" by (rule arg_cong)
  also have "\<dots> = company_profile (h st)" by (simp add: w_def)
  finally show ?thesis by (simp only: s_def c_def)
qed

lemma solo_sec_partial:
  assumes "truthy_str (cik10 (h st))" "cik10 (h2 st) = cik10 (h st)"
      and "facts_response (ios 0) = Inr f" "submissions_response (ios 0) = Inl e"
      and "\<not> is_ClientError e"
  shows "fst (solo (snd (resume (fetch_sec_data ios st) h)) h2) = Raised e
       \<and> companyfacts (snd (solo (snd (resume (fetch_sec_data ios st) h)) h2) st) = f
       \<and> submissions (snd (solo (snd (resume (fetch_sec_data ios st) h)) h2) st)
           = submissions (h2 st)"
  using assms
  by (simp add: fetch_sec_data_def numeral_3_eq_3 rate_limited_def fetch_sec_data_body_def
                await_companyfacts_def await_submissions_def)

lemma initial_data_outcome:
  assumes run: "parallel_initial_data sched io st h = Some (st', h')"
  obtains hb where
    "gather sched (initial_data_branches io st) h =
       Some ([fst (solo (snd (resume (fetch_sec_data (sec_attempts io) st) h)) hb),
              if found (h st) = None then Returned st
              else (case profile_outcome io of Inl e \<Rightarrow> Raised e | Inr p \<Rightarrow> Returned st)],
             h')"
    and "h' = profile_write (if found (h st) = None then Inl undefined else profile_outcome io) st
                (snd (solo (snd (resume (fetch_sec_data (sec_attempts io) st) h)) hb))"
    and "cik10 (hb st) = cik10 (h st)"
    and "companyfacts (hb st) = companyfacts (h st)"
    and "submissions (hb st) = submissions (h st)"
    and "company_profile (hb st) = company_profile (h st)"
proof -
  define hb where "hb = fst (resume (fetch_company_profile (profile_outcome io) st)
                        (fst (resume (fetch_sec_data (sec_attempts io) st) h)))"
  define c1 where "c1 = snd (resume (fetch_sec_data (sec_attempts io) st) h)"
  from parallel_initial_data_Some [OF run] obtain rs where
    g: "gather sched (initial_data_branches io st) h = Some (rs, h')"
    and seq: "(rs, h') = sequential (initial_data_branches io st) h"
    by blast
  have fnd: "found (fst (resume (fetch_sec_data (sec_attempts io) st) h) st) = found (h st)"
    by (simp add: resume_fetch_sec_data)
  from seq have "(rs, h') =
      (case solo c1 hb of (res, h1) \<Rightarrow>
         (case solo (snd (resume (fetch_company_profile (profile_outcome io) st)
                            (fst (resume (fetch_sec_data (sec_attempts io) st) h)))) h1
          of (r1, h2) \<Rightarrow> ([res, r1], h2)))"
    by (simp add: sequential_initial hb_def c1_def split_beta)
  then have both: "rs = [fst (solo c1 hb),
                  if found (h st) = None then Returned st
                  else (case profile_outcome io of Inl e \<Rightarrow> Raised e | Inr p \<Rightarrow> Returned st)]
      \<and> h' = profile_write (if found (h st) = None then Inl undefined else profile_outcome io) st
                (snd (solo c1 hb))"
    by (simp add: solo_profile_pending fnd split_beta profile_write_def split: sum.splits)
  show thesis
  proof (rule that [of hb])
    from g both show "gather sched (initial_data_branches io st) h =
       Some ([fst (solo (snd (resume (fetch_sec_data (sec_attempts io) st) h)) hb),
              if found (h st) = None then Returned st
              else (case profile_outcome io of Inl e \<Rightarrow> Raised e | Inr p \<Rightarrow> Returned st)],
             h')" by (simp add: c1_def)
    from both show "h' = profile_write
        (if found (h st) = None then Inl undefined else profile_outcome io) st
        (snd (solo (snd (resume (fetch_sec_data (sec_attempts io) st) h)) hb))"
      by (simp add: c1_def)
    show "cik10 (hb st) = cik10 (h st)"
      by (simp add: hb_def resume_fetch_company_profile_heap resume_fetch_sec_data)
    show "companyfacts (hb st) = companyfacts (h st)"
      by (simp add: hb_def resume_fetch_company_profile_heap resume_fetch_sec_data)
    show "submissions (hb st) = submissions (h st)"
      by (simp add: hb_def resume_fetch_company_profile_heap resume_fetch_sec_data)
    show "company_profile (hb st) = company_profile (h st)"
      by (simp add: hb_def resume_fetch_company_profile_heap resume_fetch_sec_data)
  qed
qed

text \<open>
  What a raising branch of Group A leaves, under every schedule. The branches share
  the state object and write it in place; what a raising branch leaves depends on
  where it raises.
  \<open>fetch_sec_data\<close> raising for a missing CIK leaves \<open>companyfacts\<close> and
  \<open>submissions\<close> as they were; raising at the submissions request with an error
  that is not retried, it has stored the company facts already and leaves
  \<open>submissions\<close> as they were. \<open>fetch_company_profile\<close> raising leaves
  \<open>company_profile\<close> as it was. What the other branch stores is in the merged
  state whatever the first one does: facts and submissions of an answered first
  attempt, and the profile that was built.
\<close>

lemma fan_out_branch_failure:
  assumes run: "parallel_initial_data sched io st h = Some (st', h')"
  shows "st' = st
     \<and> (\<exists>r0 r1. gather sched (initial_data_branches io st) h = Some ([r0, r1], h')
          \<and> (\<not> truthy_str (cik10 (h st)) \<longrightarrow>
                 r0 = Raised (Exn ValueError ''CIK not set - company must be resolved first'')
               \<and> companyfacts (h' st) = companyfacts (h st)
               \<and> submissions (h' st) = submissions (h st))
          \<and> (\<forall>f e. truthy_str (cik10 (h st))
                   \<and> facts_response (sec_attempts io 0) = Inr f
                   \<and> submissions_response (sec_attempts io 0) = Inl e
                   \<and> \<not> is_ClientError e \<longrightarrow>
                 r0 = Raised e
               \<and> companyfacts (h' st) = f
               \<and> submissions (h' st) = submissions (h st))
          \<and> (\<forall>f s. truthy_str (cik10 (h st))
                   \<and> facts_response (sec_attempts io 0) = Inr f
                   \<and> submissions_response (sec_attempts io 0) = Inr s \<longrightarrow>
                 r0 = Returned st \<and> companyfacts (h' st) = f \<and> submissions (h' st) = s)
          \<and> (\<forall>e. found (h st) \<noteq> None \<and> profile_outcome io = Inl e \<longrightarrow>
                 r1 = Raised e \<and> company_profile (h' st) = company_profile (h st))
          \<and> (\<forall>p. found (h st) \<noteq> None \<and> profile_outcome io = Inr p \<longrightarrow>
                 r1 = Returned st \<and> company_profile (h' st) = Some p))"
proof -
  from parallel_initial_data_Some [OF run] have st: "st' = st" by blast
  from initial_data_outcome [OF run] obtain hb where
    g: "gather sched (initial_data_branches io st) h =
       Some ([fst (solo (snd (resume (fetch_sec_data (sec_attempts io) st) h)) hb),
              if found (h st) = None then Returned st
              else (case profile_outcome io of Inl e \<Rightarrow> Raised e | Inr p \<Rightarrow> Returned st)],
             h')"
    and h': "h' = profile_write (if found (h st) = None then Inl undefined else profile_outcome io) st
                (snd (solo (snd (resume (fetch_sec_data (sec_attempts io) st) h)) hb))"
    and cik: "cik10 (hb st) = cik10 (h st)"
    and facts: "companyfacts (hb st) = companyfacts (h st)"
    and subs: "submissions (hb st) = submissions (h st)"
    and prof: "company_profile (hb st) = company_profile (h st)"
    by blast
  define r0 where "r0 = fst (solo (snd (resume (fetch_sec_data (sec_attempts io) st) h)) hb)"
  define s1 where "s1 = snd (solo (snd (resume (fetch_sec_data (sec_attempts io) st) h)) hb)"
  define r1 where "r1 = (if found (h st) = None then Returned st
              else (case profile_outcome io of Inl e \<Rightarrow> Raised e | Inr p \<Rightarrow> Returned st))"
  have hs: "h' = profile_write (if found (h st) = None then Inl undefined else profile_outcome io)
                   st s1"
    by (simp only: h' s1_def)
  have same_facts: "companyfacts (h' st) = companyfacts (s1 st)"
    by (simp add: hs profile_write_def split: sum.splits)
  have same_subs: "submissions (h' st) = submissions (s1 st)"
    by (simp add: hs profile_write_def split: sum.splits)
  have keep: "company_profile (s1 st) = company_profile (h st)"
    unfolding s1_def using solo_sec_keeps_profile [of "sec_attempts io" st h hb] prof by simp
  have a: "\<not> truthy_str (cik10 (h st)) \<longrightarrow>
                 r0 = Raised (Exn ValueError ''CIK not set - company must be resolved first'')
               \<and> companyfacts (h' st) = companyfacts (h st)
               \<and> submissions (h' st) = submissions (h st)"
    unfolding same_facts same_subs r0_def s1_def
    using solo_sec_no_cik [of h st hb "sec_attempts io"] cik facts subs by simp
  have b: "\<forall>f e. truthy_str (cik10 (h st))
                   \<and> facts_response (sec_attempts io 0) = Inr f
                   \<and> submissions_response (sec_attempts io 0) = Inl e
                   \<and> \<not> is_ClientError e \<longrightarrow>
                 r0 = Raised e
               \<and> companyfacts (h' st) = f
               \<and> submissions (h' st) = submissions (h st)"
    unfolding same_facts same_subs r0_def s1_def
    using solo_sec_partial [of h st hb "sec_attempts io"] cik subs by simp
  have c: "\<forall>f s. truthy_str (cik10 (h st))
                   \<and> facts_response (sec_attempts io 0) = Inr f
                   \<and> submissions_response (sec_attempts io 0) = Inr s \<longrightarrow>
                 r0 = Returned st \<and> companyfacts (h' st) = f \<and> submissions (h' st) = s"
    unfolding same_facts same_subs r0_def s1_def
    using solo_sec_success [of h st hb "sec_attempts io"] cik by simp
  have d: "\<forall>e. found (h st) \<noteq> None \<and> profile_outcome io = Inl e \<longrightarrow>
                 r1 = Raised e \<and> company_profile (h' st) = company_profile (h st)"
    using keep by (auto simp: hs r1_def profile_write_def)
  have e: "\<forall>p. found (h st) \<noteq> None \<and> profile_outcome io = Inr p \<longrightarrow>
                 r1 = Returned st \<and> company_profile (h' st) = Some p"
    by (auto simp: hs r1_def profile_write_def)
  from g have "gather sched (initial_data_branches io st) h = Some ([r0, r1], h')"
    by (simp only: r0_def r1_def)
  with st a b c d e show ?thesis by blast
qed

lemma fan_out_branch_failure_example:
  "(map_option companyfacts
        (merged_state (parallel_initial_data [1] submissions_fail 0 (single_heap demo_no_cik)))
       = Some (companyfacts demo_no_cik)
    \<and> map_option submissions
        (merged_state (parallel_initial_data [1] submissions_fail 0 (single_heap demo_no_cik)))
       = Some (submissions demo_no_cik)
    \<and> map_option company_profile
        (merged_state (parallel_initial_data [1] submissions_fail 0 (single_heap demo_no_cik)))
       = Some (Some demo_profile))
   \<and> (map_option companyfacts
        (merged_state (parallel_initial_data [0, 0, 1] timed_out 0 (single_heap demo_resolved)))
       = Some [(''entityName'', ''Apple Inc.'')]
    \<and> map_option submissions
        (merged_state (parallel_initial_data [0, 0, 1] timed_out 0 (single_heap demo_resolved)))
       = Some (submissions demo_resolved)
    \<and> map_option company_profile
        (merged_state (parallel_initial_data [0, 0, 1] timed_out 0 (single_heap demo_resolved)))
       = Some (company_profile demo_resolved))
   \<and> (map_option companyfacts
        (merged_state (parallel_initial_data [1, 0, 0, 0] all_answered 0
                         (single_heap demo_resolved)))
       = Some [(''entityName'', ''Apple Inc.'')]
    \<and> map_option submissions
        (merged_state (parallel_initial_data [1, 0, 0, 0] all_answered 0
                         (single_heap demo_resolved)))
       = Some [(''name'', ''Apple Inc.'')]
    \<and> map_option company_profile
        (merged_state (parallel_initial_data [1, 0, 0, 0] all_answered 0
                         (single_heap demo_resolved)))
       = Some (Some demo_profile))"
proof -
  have no_cik: "\<not> truthy_str (cik10 (single_heap demo_no_cik 0))"
    and resolved: "truthy_str (cik10 (single_heap demo_resolved 0))"
    and found1: "found (single_heap demo_no_cik 0) \<noteq> None"
    and found2: "found (single_heap demo_resolved 0) \<noteq> None"
    by (simp_all add: single_heap_def demo_no_cik_def demo_resolved_def new_state_def
                      truthy_str_def)
  have "parallel_initial_data [1] submissions_fail 0 (single_heap demo_no_cik) \<noteq> None"
    unfolding parallel_initial_data_None by (simp add: initial_eval)
  then obtain s1 h1 where run1:
    "parallel_initial_data [1] submissions_fail 0 (single_heap demo_no_cik) = Some (s1, h1)"
    by auto
  have io1: "profile_outcome submissions_fail = Inr demo_profile"
    by (simp add: submissions_fail_def)
  from fan_out_branch_failure [OF run1] no_cik found1 io1
  have post1: "s1 = 0 \<and> companyfacts (h1 0) = companyfacts (single_heap demo_no_cik 0)
        \<and> submissions (h1 0) = submissions (single_heap demo_no_cik 0)
        \<and> company_profile (h1 0) = Some demo_profile"
    by blast
  have part1: "map_option companyfacts
        (merged_state (parallel_initial_data [1] submissions_fail 0 (single_heap demo_no_cik)))
       = Some (companyfacts demo_no_cik)
    \<and> map_option submissions
        (merged_state (parallel_initial_data [1] submissions_fail 0 (single_heap demo_no_cik)))
       = Some (submissions demo_no_cik)
    \<and> map_option company_profile
        (merged_state (parallel_initial_data [1] submissions_fail 0 (single_heap demo_no_cik)))
       = Some (Some demo_profile)"
    unfolding run1 merged_state_def using post1 by (simp add: single_heap_def)
  have "parallel_initial_data [0, 0, 1] timed_out 0 (single_heap demo_resolved) \<noteq> None"
    unfolding parallel_initial_data_None by (simp add: initial_eval timed_out_def)
  then obtain s2 h2 where run2:
    "parallel_initial_data [0, 0, 1] timed_out 0 (single_heap demo_resolved) = Some (s2, h2)"
    by auto
  have io2: "facts_response (sec_attempts timed_out 0) = Inr [(''entityName'', ''Apple Inc.'')]"
    "submissions_response (sec_attempts timed_out 0) = Inl (Exn OtherException ''TimeoutError'')"
    "\<not> is_ClientError (Exn OtherException ''TimeoutError'')"
    "profile_outcome timed_out = Inl (Exn OtherException ''search failed'')"
    by (simp_all add: timed_out_def is_ClientError_def)
  from fan_out_branch_failure [OF run2] resolved found2 io2
  have post2: "s2 = 0 \<and> companyfacts (h2 0) = [(''entityName'', ''Apple Inc.'')]
        \<and> submissions (h2 0) = submissions (single_heap demo_resolved 0)
        \<and> company_profile (h2 0) = company_profile (single_heap demo_resolved 0)"
    by blast
  have part2: "map_option companyfacts
        (merged_state (parallel_initial_data [0, 0, 1] timed_out 0 (single_heap demo_resolved)))
       = Some [(''entityName'', ''Apple Inc.'')]
    \<and> map_option submissions
        (merged_state (parallel_initial_data [0, 0, 1] timed_out 0 (single_heap demo_resolved)))
       = Some (submissions demo_resolved)
    \<and> map_option company_profile
        (merged_state (parallel_initial_data [0, 0, 1] timed_out 0 (single_heap demo_resolved)))
       = Some (company_profile demo_resolved)"
    unfolding run2 merged_state_def using post2 by (simp add: single_heap_def)
  have "parallel_initial_data [1, 0, 0, 0] all_answered 0 (single_heap demo_resolved) \<noteq> None"
    unfolding parallel_initial_data_None by (simp add: initial_eval all_answered_def)
  then obtain s3 h3 where run3:
    "parallel_initial_data [1, 0, 0, 0] all_answered 0 (single_heap demo_resolved) = Some (s3, h3)"
    by auto
  have io3: "facts_response (sec_attempts all_answered 0) = Inr [(''entityName'', ''Apple Inc.'')]"
    "submissions_response (sec_attempts all_answered 0) = Inr [(''name'', ''Apple Inc.'')]"
    "profile_outcome all_answered = Inr demo_profile"
    by (simp_all add: all_answered_def)
  from fan_out_branch_failure [OF run3] resolved found2 io3
  have post3: "s3 = 0 \<and> companyfacts (h3 0) = [(''entityName'', ''Apple Inc.'')]
        \<and> submissions (h3 0) = [(''name'', ''Apple Inc.'')]
        \<and> company_profile (h3 0) = Some demo_profile"
    by blast
  have part3: "map_option companyfacts
        (merged_state (parallel_initial_data [1, 0, 0, 0] all_answered 0
                         (single_heap demo_resolved)))
       = Some [(''entityName'', ''Apple Inc.'')]
    \<and> map_option submissions
        (merged_state (parallel_initial_data [1, 0, 0, 0] all_answered 0
                         (single_heap demo_resolved)))
       = Some [(''name'', ''Apple Inc.'')]
    \<and> map_option company_profile
        (merged_state (parallel_initial_data [1, 0, 0, 0] all_answered 0
                         (single_heap demo_resolved)))
       = Some (Some demo_profile)"
    unfolding run3 merged_state_def using post3 by simp
  from part1 part2 part3 show ?thesis by blast
qed

text \<open>
  C2, at one input of Group A. By the claim a branch works on a view of its own and,
  when it raises, the fields it owns keep their pre-fan-out value. The company facts
  arrive and every request for the submissions fails. \<open>companyfacts\<close> is empty
  before the fan-out; after the first segments and one more step of the first branch
  the shared state object holds the fetched facts, before anything is merged; the
  branch ends raising the client error, the merge loop skips its result, and the
  merged state holds the facts all the same.
\<close>

theorem fan_out_raising_branch_has_written:
  "companyfacts demo_resolved = []
   \<and> companyfacts
        (fst (run_schedule [0, 1, 0] (initial_data_branches submissions_fail 0)
                (single_heap demo_resolved)) 0)
       = [(''entityName'', ''Apple Inc.'')]
   \<and> gathered (gather [0, 1, 0, 0, 0, 0, 0, 0, 0] (initial_data_branches submissions_fail 0)
                 (single_heap demo_resolved))
       = Some [Raised (Exn ClientError ''503''), Returned 0]
   \<and> map_option companyfacts
        (merged_state (parallel_initial_data [0, 1, 0, 0, 0, 0, 0, 0, 0] submissions_fail 0
                         (single_heap demo_resolved)))
       = Some [(''entityName'', ''Apple Inc.'')]"
  by (simp add: group_A_eval)

end
